theory Spec2Isabelle
  imports Main "HOL-Library.Sublist" "HOL-Library.Char_ord" "HOL-Library.List_Lexorder"
    "HOL-Library.AList"
begin

section \<open>The jsonschema-gen command of json-to-go-vsc\<close>

text \<open>
  A shallow embedding of \<^verbatim>\<open>cmd/jsonschema-gen\<close> (the \<^verbatim>\<open>package main\<close> part of
  \<^verbatim>\<open>pinned.go\<close>): the functions \<^verbatim>\<open>main\<close>, \<^verbatim>\<open>copyDeps\<close>, \<^verbatim>\<open>renameImports\<close>,
  \<^verbatim>\<open>findGoMod\<close>, \<^verbatim>\<open>parseGoMod\<close>, \<^verbatim>\<open>parsePkgName\<close>, \<^verbatim>\<open>fail\<close> and \<^verbatim>\<open>must\<close>.

  Go strings are byte strings: \<^typ>\<open>string\<close> (a list of \<^typ>\<open>char\<close>, one per byte).
  The program runs against a file system, a child process and the Go standard
  library. The standard-library functions it calls are modelled first (for a
  Unix target: the separator is \<^verbatim>\<open>/\<close> and there are no volume names), then the
  file system as explicit state, then the program.
\<close>

subsection \<open>Package strings\<close>

definition strings_HasPrefix :: "string \<Rightarrow> string \<Rightarrow> bool" where
  "strings_HasPrefix s p = prefix p s"

definition strings_HasSuffix :: "string \<Rightarrow> string \<Rightarrow> bool" where
  "strings_HasSuffix s p = suffix p s"

definition strings_TrimPrefix :: "string \<Rightarrow> string \<Rightarrow> string" where
  "strings_TrimPrefix s p = (if strings_HasPrefix s p then drop (length p) s else s)"

text \<open>
  \<^verbatim>\<open>strings.Split(s, sep)\<close> for a separator of one byte (the program splits at
  \<^verbatim>\<open>"\n"\<close> only; the path functions below split at \<^verbatim>\<open>/\<close>): all the pieces
  between separators, so one piece more than there are separators.
\<close>

fun strings_Split :: "string \<Rightarrow> char \<Rightarrow> string list" where
  "strings_Split [] sep = [[]]"
| "strings_Split (c # cs) sep =
     (if c = sep then [] # strings_Split cs sep
      else (case strings_Split cs sep of
              [] \<Rightarrow> [[c]]
            | piece # pieces \<Rightarrow> (c # piece) # pieces))"

text \<open>\<^verbatim>\<open>strings.Join(elems, sep)\<close>.\<close>

fun strings_Join :: "string list \<Rightarrow> string \<Rightarrow> string" where
  "strings_Join [] sep = []"
| "strings_Join [e] sep = e"
| "strings_Join (e # es) sep = e @ sep @ strings_Join es sep"

text \<open>
  \<^verbatim>\<open>strings.TrimSpace\<close> removes leading and trailing white space as
  \<^verbatim>\<open>unicode.IsSpace\<close> defines it. On bytes: the six ASCII characters and the UTF-8
  encodings of U+0085, U+00A0, U+1680, U+2000 to U+200A, U+2028, U+2029, U+202F,
  U+205F and U+3000.
\<close>

definition space_runes :: "string list" where
  "space_runes =
    [[CHR 0x09], [CHR 0x0A], [CHR 0x0B], [CHR 0x0C], [CHR 0x0D], [CHR 0x20],
     [CHR 0xC2, CHR 0x85], [CHR 0xC2, CHR 0xA0],
     [CHR 0xE1, CHR 0x9A, CHR 0x80],
     [CHR 0xE2, CHR 0x80, CHR 0x80], [CHR 0xE2, CHR 0x80, CHR 0x81],
     [CHR 0xE2, CHR 0x80, CHR 0x82], [CHR 0xE2, CHR 0x80, CHR 0x83],
     [CHR 0xE2, CHR 0x80, CHR 0x84], [CHR 0xE2, CHR 0x80, CHR 0x85],
     [CHR 0xE2, CHR 0x80, CHR 0x86], [CHR 0xE2, CHR 0x80, CHR 0x87],
     [CHR 0xE2, CHR 0x80, CHR 0x88], [CHR 0xE2, CHR 0x80, CHR 0x89],
     [CHR 0xE2, CHR 0x80, CHR 0x8A],
     [CHR 0xE2, CHR 0x80, CHR 0xA8], [CHR 0xE2, CHR 0x80, CHR 0xA9],
     [CHR 0xE2, CHR 0x80, CHR 0xAF], [CHR 0xE2, CHR 0x81, CHR 0x9F],
     [CHR 0xE3, CHR 0x80, CHR 0x80]]"

function trim_left :: "string list \<Rightarrow> string \<Rightarrow> string" where
  "trim_left runes s =
     (case find (\<lambda>r. r \<noteq> [] \<and> prefix r s) runes of
        None \<Rightarrow> s
      | Some r \<Rightarrow> trim_left runes (drop (length r) s))"
  by pat_completeness auto
termination
proof (relation "measure (\<lambda>(runes, s). length s)")
  show "wf (measure (\<lambda>(runes, s). length s))" by simp
next
  fix runes :: "string list" and s r :: string
  assume "find (\<lambda>r. r \<noteq> [] \<and> prefix r s) runes = Some r"
  then have "r \<noteq> []" and "prefix r s"
    by (auto simp: find_Some_iff)
  then have "s \<noteq> []" by auto
  with \<open>r \<noteq> []\<close> show "((runes, drop (length r) s), (runes, s)) \<in> measure (\<lambda>(runes, s). length s)"
    by simp
qed

declare trim_left.simps [simp del]

definition strings_TrimSpace :: "string \<Rightarrow> string" where
  "strings_TrimSpace s =
     rev (trim_left (map rev space_runes) (rev (trim_left space_runes s)))"

text \<open>
  \<^verbatim>\<open>strings.ReplaceAll(s, old, new)\<close> for a non-empty \<^verbatim>\<open>old\<close>: the
  non-overlapping occurrences of \<^verbatim>\<open>old\<close>, found from the left, are replaced.
  (For an empty \<^verbatim>\<open>old\<close> Go inserts \<^verbatim>\<open>new\<close> at every rune boundary; the
  program never passes one, and the definition returns \<^verbatim>\<open>s\<close> there.)
\<close>

function strings_ReplaceAll :: "string \<Rightarrow> string \<Rightarrow> string \<Rightarrow> string" where
  "strings_ReplaceAll [] old new = []"
| "strings_ReplaceAll (c # cs) old new =
     (if old \<noteq> [] \<and> prefix old (c # cs)
      then new @ strings_ReplaceAll (drop (length old) (c # cs)) old new
      else c # strings_ReplaceAll cs old new)"
  by pat_completeness auto
termination
  by (relation "measure (\<lambda>(s, old, new). length s)") auto

text \<open>
  The comparison \<^verbatim>\<open><\<close> of Go on strings: lexical, byte by byte, a proper
  prefix first.
\<close>

fun string_less :: "string \<Rightarrow> string \<Rightarrow> bool" where
  "string_less [] [] = False"
| "string_less [] (y # ys) = True"
| "string_less (x # xs) [] = False"
| "string_less (x # xs) (y # ys) =
     ((of_char x :: nat) < of_char y \<or> (x = y \<and> string_less xs ys))"

subsection \<open>Package path/filepath\<close>

text \<open>
  \<^verbatim>\<open>filepath.Clean\<close> reads the path element by element and writes to a buffer;
  \<^verbatim>\<open>dotdot\<close> marks how much of the buffer a \<^verbatim>\<open>..\<close> element must not remove (the
  leading \<^verbatim>\<open>..\<close> elements of a path that is not rooted). The buffer is kept here
  as the list of the elements written, the last one first, and \<^verbatim>\<open>dotdot\<close> counts
  elements.
\<close>

definition clean_elem :: "bool \<Rightarrow> string list \<times> nat \<Rightarrow> string \<Rightarrow> string list \<times> nat" where
  "clean_elem rooted st e =
     (case st of (out, dotdot) \<Rightarrow>
        if e = [] then (out, dotdot)
        else if e = ''.'' then (out, dotdot)
        else if e = ''..'' then
          (if length out > dotdot then (tl out, dotdot)
           else if \<not> rooted then (''..'' # out, Suc (length out))
           else (out, dotdot))
        else (e # out, dotdot))"

definition filepath_Clean :: "string \<Rightarrow> string" where
  "filepath_Clean path =
     (if path = [] then ''.''
      else
        let rooted = (hd path = CHR ''/'');
            out = fst (foldl (clean_elem rooted) ([], 0) (strings_Split path CHR ''/''));
            body = strings_Join (rev out) ''/''
        in if rooted then CHR ''/'' # body
           else if out = [] then ''.''
           else body)"

definition filepath_IsAbs :: "string \<Rightarrow> bool" where
  "filepath_IsAbs path = strings_HasPrefix path ''/''"

text \<open>\<^verbatim>\<open>filepath.Dir\<close>: the path up to and with its last separator, cleaned.\<close>

definition last_sep_prefix :: "string \<Rightarrow> string" where
  "last_sep_prefix path = rev (dropWhile (\<lambda>c. c \<noteq> CHR ''/'') (rev path))"

definition filepath_Dir :: "string \<Rightarrow> string" where
  "filepath_Dir path = filepath_Clean (last_sep_prefix path)"

text \<open>\<^verbatim>\<open>filepath.Base\<close>: the last element, trailing separators dropped first.\<close>

definition filepath_Base :: "string \<Rightarrow> string" where
  "filepath_Base path =
     (if path = [] then ''.''
      else
        let stripped = rev (dropWhile (\<lambda>c. c = CHR ''/'') (rev path));
            elem = rev (takeWhile (\<lambda>c. c \<noteq> CHR ''/'') (rev stripped))
        in if elem = [] then ''/'' else elem)"

text \<open>
  \<^verbatim>\<open>filepath.Join\<close>: the elements from the first non-empty one on, joined by the
  separator and cleaned; the empty string when every element is empty.
\<close>

definition filepath_Join :: "string list \<Rightarrow> string" where
  "filepath_Join elem =
     (case dropWhile (\<lambda>e. e = []) elem of
        [] \<Rightarrow> []
      | es \<Rightarrow> filepath_Clean (strings_Join es ''/''))"

text \<open>
  \<^verbatim>\<open>filepath.Abs\<close>; the working directory is what \<^verbatim>\<open>os.Getwd\<close> returns, an
  error message or a path.
\<close>

definition filepath_Abs :: "string + string \<Rightarrow> string \<Rightarrow> string + string" where
  "filepath_Abs getwd path =
     (if filepath_IsAbs path then Inr (filepath_Clean path)
      else (case getwd of
              Inl err \<Rightarrow> Inl err
            | Inr wd \<Rightarrow> Inr (filepath_Join [wd, path])))"

text \<open>
  \<^verbatim>\<open>filepath.Rel\<close>. Its loop walks both cleaned paths element by element to the
  first difference; \<^verbatim>\<open>rel_loop\<close> returns the element \<^verbatim>\<open>base[b0:bi]\<close> and the rests
  \<^verbatim>\<open>base[b0:]\<close> and \<^verbatim>\<open>targ[t0:]\<close> at the loop's exit.
\<close>

function rel_loop :: "string \<Rightarrow> string \<Rightarrow> string \<times> string \<times> string" where
  "rel_loop base targ =
     (if base = [] \<or> targ = [] then ([], base, targ)
      else
        let be = takeWhile (\<lambda>c. c \<noteq> CHR ''/'') base;
            te = takeWhile (\<lambda>c. c \<noteq> CHR ''/'') targ
        in if te \<noteq> be then (be, base, targ)
           else rel_loop (drop (Suc (length be)) base) (drop (Suc (length te)) targ))"
  by pat_completeness auto
termination
  by (relation "measure (\<lambda>(base, targ). length base)") auto

declare rel_loop.simps [simp del]

definition rel_error :: "string \<Rightarrow> string \<Rightarrow> string" where
  "rel_error basepath targpath =
     ''Rel: can't make '' @ targpath @ '' relative to '' @ basepath"

definition filepath_Rel :: "string \<Rightarrow> string \<Rightarrow> string + string" where
  "filepath_Rel basepath targpath =
     (let base0 = filepath_Clean basepath;
          targ = filepath_Clean targpath
      in if targ = base0 then Inr ''.''
         else
           let base = (if base0 = ''.'' then [] else base0);
               baseSlashed = (base \<noteq> [] \<and> hd base = CHR ''/'');
               targSlashed = (targ \<noteq> [] \<and> hd targ = CHR ''/'')
           in if baseSlashed \<noteq> targSlashed then Inl (rel_error basepath targpath)
              else (case rel_loop base targ of (be, brest, trest) \<Rightarrow>
                if be = ''..'' then Inl (rel_error basepath targpath)
                else if brest \<noteq> [] then
                  Inr (''..'' @ concat (replicate (count_list brest CHR ''/'') ''/..'')
                       @ (if trest \<noteq> [] then CHR ''/'' # trest else []))
                else Inr trest))"

subsection \<open>The parent directory is shorter\<close>

text \<open>
  The loops of the program that walk up from a directory (\<^verbatim>\<open>findGoMod\<close>, and
  \<^verbatim>\<open>os.MkdirAll\<close>) end because \<^verbatim>\<open>filepath.Dir\<close> shortens every path that has a
  separator, the root apart. The bound on \<^verbatim>\<open>filepath.Clean\<close> counts, for each
  element, its bytes and one separator.
\<close>

lemma strings_Split_nonempty: "strings_Split s sep \<noteq> []"
  by (induction s) (auto split: list.splits)

lemma strings_Split_total:
  "sum_list (map (\<lambda>e. Suc (length e)) (strings_Split s sep)) = Suc (length s)"
proof (induction s)
  case Nil
  show ?case by simp
next
  case (Cons c cs)
  obtain piece pieces where sp: "strings_Split cs sep = piece # pieces"
    using strings_Split_nonempty [of cs sep] by (cases "strings_Split cs sep") auto
  with Cons show ?case by auto
qed

definition out_len :: "string list \<Rightarrow> nat" where
  "out_len out = sum_list (map (\<lambda>e. Suc (length e)) out)"

definition elem_weight :: "string \<Rightarrow> nat" where
  "elem_weight e = (if e = [] then 0 else Suc (length e))"

lemma strings_Join_length:
  "out \<noteq> [] \<Longrightarrow> Suc (length (strings_Join out [c])) = out_len out"
  by (induction out "[c]" rule: strings_Join.induct) (auto simp: out_len_def)

lemma out_len_rev: "out_len (rev out) = out_len out"
  by (simp add: out_len_def rev_map [symmetric])

lemma out_len_tl: "out_len (tl out) \<le> out_len out"
  by (cases out) (auto simp: out_len_def)

lemma clean_elem_len:
  "out_len (fst (clean_elem rooted (out, d) e)) \<le> out_len out + elem_weight e"
  using out_len_tl [of out]
  by (auto simp: clean_elem_def elem_weight_def out_len_def)

lemma clean_fold_len:
  "out_len (fst (foldl (clean_elem rooted) st es)) \<le> out_len (fst st) + sum_list (map elem_weight es)"
proof (induction es arbitrary: st)
  case Nil
  show ?case by simp
next
  case (Cons e es)
  obtain out d where st: "st = (out, d)" by (cases st)
  have "out_len (fst (foldl (clean_elem rooted) (clean_elem rooted st e) es))
      \<le> out_len (fst (clean_elem rooted st e)) + sum_list (map elem_weight es)"
    by (rule Cons.IH)
  also have "\<dots> \<le> out_len out + elem_weight e + sum_list (map elem_weight es)"
    using clean_elem_len [of rooted out d e] by (simp add: st)
  finally show ?case by (simp add: st)
qed

lemma weight_le: "sum_list (map elem_weight es) \<le> sum_list (map (\<lambda>e. Suc (length e)) es)"
  by (induction es) (auto simp: elem_weight_def)

lemma weight_le_last:
  "es \<noteq> [] \<Longrightarrow> last es = [] \<Longrightarrow>
   Suc (sum_list (map elem_weight es)) \<le> sum_list (map (\<lambda>e. Suc (length e)) es)"
proof (induction es)
  case Nil
  then show ?case by simp
next
  case (Cons e es)
  show ?case
  proof (cases "es = []")
    case True
    with Cons.prems show ?thesis by (simp add: elem_weight_def)
  next
    case False
    with Cons have "Suc (sum_list (map elem_weight es)) \<le> sum_list (map (\<lambda>e. Suc (length e)) es)"
      by simp
    moreover have "elem_weight e \<le> Suc (length e)" by (simp add: elem_weight_def)
    ultimately show ?thesis by simp
  qed
qed

lemma strings_Split_last:
  "s \<noteq> [] \<Longrightarrow> last s = sep \<Longrightarrow> last (strings_Split s sep) = []"
proof (induction s)
  case Nil
  then show ?case by simp
next
  case (Cons c cs)
  show ?case
  proof (cases "cs = []")
    case True
    with Cons.prems show ?thesis by simp
  next
    case False
    with Cons have l: "last (strings_Split cs sep) = []" by simp
    obtain piece pieces where sp: "strings_Split cs sep = piece # pieces"
      using strings_Split_nonempty [of cs sep] by (cases "strings_Split cs sep") auto
    show ?thesis
    proof (cases "pieces = []")
      case True
      with sp l have "piece = []" by simp
      with sp True False have "cs \<noteq> [] \<and> strings_Split cs sep = [[]]" by simp
      then have False
        by (cases cs) (auto split: if_splits list.splits simp: strings_Split_nonempty)
      then show ?thesis ..
    next
      case False
      with sp l show ?thesis by auto
    qed
  qed
qed

lemma clean_out_bound:
  "out_len (fst (foldl (clean_elem rooted) ([], 0) es)) \<le> sum_list (map elem_weight es)"
  using clean_fold_len [of rooted "([], 0)" es] by (simp add: out_len_def)

lemma filepath_Clean_length:
  assumes "path \<noteq> []"
  shows "length (filepath_Clean path) \<le> length path"
proof -
  let ?es = "strings_Split path CHR ''/''"
  let ?rooted = "hd path = CHR ''/''"
  let ?out = "fst (foldl (clean_elem ?rooted) ([], 0) ?es)"
  have tot: "sum_list (map (\<lambda>e. Suc (length e)) ?es) = Suc (length path)"
    by (rule strings_Split_total)
  have b: "out_len ?out \<le> sum_list (map elem_weight ?es)"
    by (rule clean_out_bound)
  show ?thesis
  proof (cases ?rooted)
    case True
    with assms obtain cs where p: "path = CHR ''/'' # cs" by (cases path) auto
    have "sum_list (map elem_weight ?es) \<le> length path"
      using weight_le [of "strings_Split cs CHR ''/''"] strings_Split_total [of cs "CHR ''/''"]
      by (simp add: p elem_weight_def)
    with b have ol: "out_len ?out \<le> length path" by simp
    show ?thesis
    proof (cases "?out = []")
      case e: True
      with True assms show ?thesis
        by (cases path) (simp_all add: filepath_Clean_def Let_def)
    next
      case False
      then have "Suc (length (strings_Join (rev ?out) ''/'')) = out_len ?out"
        using strings_Join_length [of "rev ?out" "CHR ''/''"] by (simp add: out_len_rev)
      with ol True assms show ?thesis
        by (simp add: filepath_Clean_def Let_def)
    qed
  next
    case False
    have ol: "out_len ?out \<le> Suc (length path)"
      using b weight_le [of ?es] tot by simp
    show ?thesis
    proof (cases "?out = []")
      case e: True
      with False assms show ?thesis
        by (cases path) (simp_all add: filepath_Clean_def Let_def)
    next
      case ne: False
      then have "Suc (length (strings_Join (rev ?out) ''/'')) = out_len ?out"
        using strings_Join_length [of "rev ?out" "CHR ''/''"] by (simp add: out_len_rev)
      with ol False ne assms show ?thesis
        by (simp add: filepath_Clean_def Let_def)
    qed
  qed
qed

lemma filepath_Clean_length_slash:
  assumes "path \<noteq> []" and "last path = CHR ''/''" and "path \<noteq> ''/''"
  shows "length (filepath_Clean path) < length path"
proof -
  let ?es = "strings_Split path CHR ''/''"
  let ?rooted = "hd path = CHR ''/''"
  let ?out = "fst (foldl (clean_elem ?rooted) ([], 0) ?es)"
  have b: "out_len ?out \<le> sum_list (map elem_weight ?es)"
    by (rule clean_out_bound)
  have len2: "2 \<le> length path"
  proof (cases path)
    case Nil
    with assms show ?thesis by simp
  next
    case (Cons c cs)
    with assms show ?thesis by (cases cs) auto
  qed
  show ?thesis
  proof (cases ?rooted)
    case True
    with assms obtain cs where p: "path = CHR ''/'' # cs" by (cases path) auto
    with assms have cs: "cs \<noteq> []" "last cs = CHR ''/''" by auto
    have "Suc (sum_list (map elem_weight (strings_Split cs CHR ''/''))) \<le> Suc (length cs)"
      using weight_le_last [OF strings_Split_nonempty strings_Split_last [OF cs]]
        strings_Split_total [of cs "CHR ''/''"] by simp
    then have "Suc (sum_list (map elem_weight ?es)) \<le> length path"
      by (simp add: p elem_weight_def)
    with b have ol: "Suc (out_len ?out) \<le> length path" by simp
    show ?thesis
    proof (cases "?out = []")
      case e: True
      with True assms len2 show ?thesis
        by (simp add: filepath_Clean_def Let_def)
    next
      case False
      then have "Suc (length (strings_Join (rev ?out) ''/'')) = out_len ?out"
        using strings_Join_length [of "rev ?out" "CHR ''/''"] by (simp add: out_len_rev)
      with ol True assms show ?thesis
        by (simp add: filepath_Clean_def Let_def)
    qed
  next
    case False
    have "Suc (sum_list (map elem_weight ?es)) \<le> Suc (length path)"
      using weight_le_last [OF strings_Split_nonempty strings_Split_last [OF assms(1,2)]]
        strings_Split_total [of path "CHR ''/''"] by simp
    with b have ol: "out_len ?out \<le> length path" by simp
    show ?thesis
    proof (cases "?out = []")
      case e: True
      with False assms len2 show ?thesis
        by (simp add: filepath_Clean_def Let_def)
    next
      case ne: False
      then have "Suc (length (strings_Join (rev ?out) ''/'')) = out_len ?out"
        using strings_Join_length [of "rev ?out" "CHR ''/''"] by (simp add: out_len_rev)
      with ol False ne assms show ?thesis
        by (simp add: filepath_Clean_def Let_def)
    qed
  qed
qed

lemma last_sep_prefix_none: "CHR ''/'' \<notin> set path \<Longrightarrow> last_sep_prefix path = []"
  by (auto simp: last_sep_prefix_def)

lemma last_sep_prefix_some:
  assumes "CHR ''/'' \<in> set path"
  shows "last_sep_prefix path \<noteq> [] \<and> last (last_sep_prefix path) = CHR ''/'' \<and>
         prefix (last_sep_prefix path) path"
proof -
  let ?d = "dropWhile (\<lambda>c. c \<noteq> CHR ''/'') (rev path)"
  from assms have ne: "?d \<noteq> []" by auto
  then have "hd ?d = CHR ''/''" using hd_dropWhile [of "\<lambda>c. c \<noteq> CHR ''/''" "rev path"] by simp
  with ne have l: "last (rev ?d) = CHR ''/''" by (simp add: last_rev)
  have "rev path = takeWhile (\<lambda>c. c \<noteq> CHR ''/'') (rev path) @ ?d" by simp
  then have "path = rev ?d @ rev (takeWhile (\<lambda>c. c \<noteq> CHR ''/'') (rev path))"
    by (metis rev_append rev_rev_ident)
  then have "prefix (rev ?d) path" by (metis prefixI)
  with ne l show ?thesis by (simp add: last_sep_prefix_def)
qed

lemma filepath_Dir_shorter:
  assumes "CHR ''/'' \<in> set path" and "path \<noteq> ''/''"
  shows "length (filepath_Dir path) < length path"
proof -
  let ?q = "last_sep_prefix path"
  from last_sep_prefix_some [OF assms(1)]
  have q: "?q \<noteq> []" "last ?q = CHR ''/''" "prefix ?q path" by simp_all
  then have le: "length ?q \<le> length path" by (simp add: prefix_length_le)
  show ?thesis
  proof (cases "?q = ''/''")
    case True
    with q(3) assms(2) have "length ?q < length path"
      using prefix_length_less [of ?q path] by (auto simp: strict_prefix_def)
    with True show ?thesis by (simp add: filepath_Dir_def filepath_Clean_def clean_elem_def)
  next
    case False
    from filepath_Clean_length_slash [OF q(1) q(2) False] le
    show ?thesis by (simp add: filepath_Dir_def)
  qed
qed

definition walk_measure :: "string \<Rightarrow> nat" where
  "walk_measure dir =
     (if dir = ''.'' then 0 else if CHR ''/'' \<notin> set dir then 1 else Suc (length dir))"

lemma filepath_Dir_measure:
  assumes "filepath_Dir dir \<noteq> dir"
  shows "walk_measure (filepath_Dir dir) < walk_measure dir"
proof (cases "CHR ''/'' \<in> set dir")
  case False
  then have d: "filepath_Dir dir = ''.''"
    by (simp add: filepath_Dir_def last_sep_prefix_none filepath_Clean_def)
  with assms have "dir \<noteq> ''.''" by auto
  with d False show ?thesis by (simp add: walk_measure_def)
next
  case True
  have "dir \<noteq> ''/''"
  proof
    assume "dir = ''/''"
    then have "filepath_Dir dir = dir"
      by (simp add: filepath_Dir_def last_sep_prefix_def filepath_Clean_def clean_elem_def)
    with assms show False by simp
  qed
  from filepath_Dir_shorter [OF True this]
  have "length (filepath_Dir dir) < length dir" .
  moreover have "walk_measure (filepath_Dir dir) \<le> Suc (length (filepath_Dir dir))"
    by (simp add: walk_measure_def)
  ultimately show ?thesis using True by (auto simp: walk_measure_def)
qed

subsection \<open>The file system and package os\<close>

text \<open>
  The file system is explicit state: a finite table from paths to nodes, a
  regular file with its bytes or a directory. Its keys are cleaned absolute
  paths, which is what every path of the program is (they all come from
  \<^verbatim>\<open>filepath.Abs\<close>, \<^verbatim>\<open>filepath.Dir\<close> and \<^verbatim>\<open>filepath.Join\<close>). Permissions, links and
  the errors of a failing device are not modelled: an operation fails only for
  a missing path or a node of the wrong kind. An operation that fails leaves
  the table as it was.
\<close>

datatype node = File string | Directory

type_synonym filesystem = "(string \<times> node) list"

definition fs_lookup :: "filesystem \<Rightarrow> string \<Rightarrow> node option" where
  "fs_lookup fs name = map_of fs name"

definition fs_store :: "filesystem \<Rightarrow> string \<Rightarrow> node \<Rightarrow> filesystem" where
  "fs_store fs name n = AList.update name n fs"

definition path_error :: "string \<Rightarrow> string \<Rightarrow> string \<Rightarrow> string" where
  "path_error op name msg = op @ '' '' @ name @ '': '' @ msg"

text \<open>\<^verbatim>\<open>os.Stat\<close>: whether it returns no error.\<close>

definition os_Stat :: "filesystem \<Rightarrow> string \<Rightarrow> bool" where
  "os_Stat fs name = (fs_lookup fs name \<noteq> None)"

definition os_ReadFile :: "filesystem \<Rightarrow> string \<Rightarrow> string + string" where
  "os_ReadFile fs name =
     (case fs_lookup fs name of
        None \<Rightarrow> Inl (path_error ''open'' name ''no such file or directory'')
      | Some Directory \<Rightarrow> Inl (path_error ''read'' name ''is a directory'')
      | Some (File data) \<Rightarrow> Inr data)"

text \<open>\<^verbatim>\<open>os.WriteFile\<close> creates the file or truncates it.\<close>

definition os_WriteFile :: "filesystem \<Rightarrow> string \<Rightarrow> string \<Rightarrow> string + filesystem" where
  "os_WriteFile fs name data =
     (case fs_lookup fs name of
        Some Directory \<Rightarrow> Inl (path_error ''open'' name ''is a directory'')
      | Some (File old) \<Rightarrow> Inr (fs_store fs name (File data))
      | None \<Rightarrow>
          (case fs_lookup fs (filepath_Dir name) of
             None \<Rightarrow> Inl (path_error ''open'' name ''no such file or directory'')
           | Some (File other) \<Rightarrow> Inl (path_error ''open'' name ''not a directory'')
           | Some Directory \<Rightarrow> Inr (fs_store fs name (File data))))"

text \<open>\<^verbatim>\<open>os.Create\<close>: the file, created or truncated, is empty.\<close>

definition os_Create :: "filesystem \<Rightarrow> string \<Rightarrow> string + filesystem" where
  "os_Create fs name = os_WriteFile fs name []"

definition os_Mkdir :: "filesystem \<Rightarrow> string \<Rightarrow> string + filesystem" where
  "os_Mkdir fs name =
     (case fs_lookup fs name of
        Some n \<Rightarrow> Inl (path_error ''mkdir'' name ''file exists'')
      | None \<Rightarrow>
          (case fs_lookup fs (filepath_Dir name) of
             None \<Rightarrow> Inl (path_error ''mkdir'' name ''no such file or directory'')
           | Some (File other) \<Rightarrow> Inl (path_error ''mkdir'' name ''not a directory'')
           | Some Directory \<Rightarrow> Inr (fs_store fs name Directory)))"

text \<open>
  \<^verbatim>\<open>os.MkdirAll\<close>: nothing to do for a directory; otherwise the parent first,
  when there is one, then the directory itself.
\<close>

function os_MkdirAll :: "filesystem \<Rightarrow> string \<Rightarrow> string + filesystem" where
  "os_MkdirAll fs path =
     (case fs_lookup fs path of
        Some Directory \<Rightarrow> Inr fs
      | Some (File other) \<Rightarrow> Inl (path_error ''mkdir'' path ''not a directory'')
      | None \<Rightarrow>
          (if filepath_Dir path = path then os_Mkdir fs path
           else (case os_MkdirAll fs (filepath_Dir path) of
                   Inl err \<Rightarrow> Inl err
                 | Inr fs' \<Rightarrow> os_Mkdir fs' path)))"
  by pat_completeness auto
termination
  by (relation "measure (\<lambda>(fs, path). walk_measure path)")
     (auto simp: filepath_Dir_measure)

declare os_MkdirAll.simps [simp del]

text \<open>The paths at or below a directory.\<close>

definition path_under :: "string \<Rightarrow> string \<Rightarrow> bool" where
  "path_under root name =
     (name = root \<or> prefix (if root = ''/'' then root else root @ ''/'') name)"

text \<open>
  \<^verbatim>\<open>filepath.Walk\<close> and \<^verbatim>\<open>fs.WalkDir\<close> visit the root, then the entries of each
  directory in the order of their names, a directory before what it holds:
  the order of the paths as lists of elements. The function called at each
  path returns an error, which ends the walk, or the file system it leaves.
\<close>

definition walk_order :: "string list \<Rightarrow> string list" where
  "walk_order names = sort_key (\<lambda>name. strings_Split name CHR ''/'') (remdups names)"

fun walk_files ::
  "(string \<Rightarrow> filesystem \<Rightarrow> string + filesystem) \<Rightarrow> string list \<Rightarrow> filesystem
     \<Rightarrow> string option \<times> filesystem" where
  "walk_files fn [] fs = (None, fs)"
| "walk_files fn (name # names) fs =
     (case fn name fs of
        Inl err \<Rightarrow> (Some err, fs)
      | Inr fs' \<Rightarrow> walk_files fn names fs')"

definition filepath_Walk ::
  "string \<Rightarrow> (string \<Rightarrow> filesystem \<Rightarrow> string + filesystem) \<Rightarrow> filesystem
     \<Rightarrow> string option \<times> filesystem" where
  "filepath_Walk root fn fs =
     (if \<not> os_Stat fs root
      then (Some (path_error ''lstat'' root ''no such file or directory''), fs)
      else walk_files fn (walk_order (filter (path_under root) (map fst fs))) fs)"

text \<open>
  \<^verbatim>\<open>os.RemoveAll\<close> removes the path and all below it, as far as it can, and
  returns the first error it met; there is none when nothing is there to
  remove. What the system refuses to remove is not a matter of the table:
  \<^verbatim>\<open>refused\<close> gives, for a path, the error of removing it, if there is one. Such
  a path stays, and so does every directory above it. The first error is
  taken in the order of the walk.
\<close>

definition os_RemoveAll ::
  "(string \<Rightarrow> string option) \<Rightarrow> filesystem \<Rightarrow> string \<Rightarrow> string option \<times> filesystem" where
  "os_RemoveAll refused fs path =
     (let names = walk_order (filter (path_under path) (map fst fs));
          stuck = filter (\<lambda>name. refused name \<noteq> None) names
      in (case stuck of [] \<Rightarrow> None | name # others \<Rightarrow> refused name,
          filter (\<lambda>(name, n). \<not> path_under path name \<or> list_ex (path_under name) stuck) fs))"

text \<open>
  \<^verbatim>\<open>bufio.Scanner\<close> with \<^verbatim>\<open>bufio.ScanLines\<close>: the lines of the data, without
  the empty piece after a final newline, each without one trailing carriage
  return; the scan ends before a line that does not fit the scanner's buffer
  of 64 KiB.
\<close>

definition dropCR :: "string \<Rightarrow> string" where
  "dropCR line = (if line \<noteq> [] \<and> last line = CHR 0x0D then butlast line else line)"

definition scan_lines :: "string \<Rightarrow> string list" where
  "scan_lines data =
     (let pieces = strings_Split data CHR 0x0A;
          lines = (if last pieces = [] then butlast pieces else pieces)
      in map dropCR (takeWhile (\<lambda>line. int (length line) < 65536) lines))"

subsection \<open>The program\<close>

definition mainTemplName :: string where "mainTemplName = ''main.templ''"
definition depsFileName :: string where "depsFileName = ''deps.txt''"
definition tmpDirName :: string where "tmpDirName = ''jsonschema-gen''"
definition vendorDirName :: string where "vendorDirName = ''vendored''"

record importInfo =
  ModuleName :: string
  PackageName :: string
  ImportName :: string
  FileName :: string
  RelativePath :: string
  FilePath :: string
  TypeName :: string

text \<open>
  What the program does to the world besides the file system, in order: what
  it writes to standard output and to standard error, the status it exits
  with, and the three calls that make, use and remove its workspace.
  \<^verbatim>\<open>Stderr_json msg\<close> is the line \<^verbatim>\<open>json.NewEncoder(os.Stderr).Encode\<close> writes for
  \<^verbatim>\<open>failMsg{Error: msg}\<close>: a JSON object with the one field \<^verbatim>\<open>error\<close>.
\<close>

datatype event =
    Stdout string
  | Stderr_json string
  | Stderr_usage
  | Stderr_text string
  | Exit nat
  | Panic string
  | Call_MkdirAll string
  | Call_Run string string
  | Call_RemoveAll string

record outcome =
  final :: filesystem
  trace :: "event list"

text \<open>
  \<^verbatim>\<open>fail\<close> ends the run: its result is the outcome of the run. \<^verbatim>\<open>must\<close> is that
  outcome for an error, and nothing (the run goes on) without one.
\<close>

definition fail :: "string \<Rightarrow> filesystem \<Rightarrow> event list \<Rightarrow> outcome" where
  "fail msg fs tr = \<lparr>final = fs, trace = tr @ [Stderr_json msg, Exit 1]\<rparr>"

definition must :: "string option \<Rightarrow> filesystem \<Rightarrow> event list \<Rightarrow> outcome option" where
  "must err fs tr = (case err of Some msg \<Rightarrow> Some (fail msg fs tr) | None \<Rightarrow> None)"

text \<open>\<^verbatim>\<open>parsePkgName\<close>. Opening a directory succeeds and reading it fails, which ends the scan.\<close>

definition parsePkgName :: "filesystem \<Rightarrow> string \<Rightarrow> string + string" where
  "parsePkgName fs file =
     (case fs_lookup fs file of
        None \<Rightarrow> Inl (path_error ''open'' file ''no such file or directory'')
      | Some n \<Rightarrow>
          (case find (\<lambda>line. strings_HasPrefix line ''package '')
                  (case n of File data \<Rightarrow> scan_lines data | Directory \<Rightarrow> []) of
             Some line \<Rightarrow> Inr (strings_TrimSpace (strings_TrimPrefix line ''package ''))
           | None \<Rightarrow> Inl (''package name not found in file '' @ file)))"

text \<open>\<^verbatim>\<open>findGoMod\<close>: the empty string when no directory up to the root has a \<^verbatim>\<open>go.mod\<close>.\<close>

function findGoMod :: "filesystem \<Rightarrow> string \<Rightarrow> string" where
  "findGoMod fs dir =
     (if os_Stat fs (filepath_Join [dir, ''go.mod'']) then dir
      else
        let parent = filepath_Dir dir
        in if parent = dir then [] else findGoMod fs parent)"
  by pat_completeness auto
termination
  by (relation "measure (\<lambda>(fs, dir). walk_measure dir)")
     (auto simp: filepath_Dir_measure)

declare findGoMod.simps [simp del]

text \<open>
  \<^verbatim>\<open>parseGoMod\<close>: the loop over the lines, with the two results as its state,
  left as soon as both are set.
\<close>

fun parseGoMod_lines :: "string list \<Rightarrow> string \<times> string \<Rightarrow> string \<times> string" where
  "parseGoMod_lines [] (modName, goVer) = (modName, goVer)"
| "parseGoMod_lines (line # lines) (modName, goVer) =
     (let (modName', goVer') =
            (if strings_HasPrefix line ''module ''
             then (strings_TrimSpace (strings_TrimPrefix line ''module ''), goVer)
             else if strings_HasPrefix line ''go ''
             then (modName, strings_TrimSpace (strings_TrimPrefix line ''go ''))
             else (modName, goVer))
      in if goVer' \<noteq> [] \<and> modName' \<noteq> [] then (modName', goVer')
         else parseGoMod_lines lines (modName', goVer'))"

definition parseGoMod :: "filesystem \<Rightarrow> string \<Rightarrow> string + string \<times> string" where
  "parseGoMod fs modDir =
     (case os_ReadFile fs (filepath_Join [modDir, ''go.mod'']) of
        Inl err \<Rightarrow> Inl err
      | Inr data \<Rightarrow> Inr (parseGoMod_lines (strings_Split data CHR 0x0A) ([], [])))"

text \<open>
  \<^verbatim>\<open>copyDeps\<close> walks the embedded file system, whose paths are relative to its
  root \<^verbatim>\<open>.\<close>, a directory.
\<close>

definition copyDeps_entry :: "filesystem \<Rightarrow> string \<Rightarrow> string \<Rightarrow> filesystem \<Rightarrow> string + filesystem" where
  "copyDeps_entry embedded dst path fs =
     (let target = filepath_Join [dst, path]
      in if path = ''.'' \<or> fs_lookup embedded path = Some Directory
         then os_MkdirAll fs target
         else (case os_ReadFile embedded path of
                 Inl err \<Rightarrow> Inl err
               | Inr data \<Rightarrow> os_WriteFile fs target data))"

definition copyDeps :: "filesystem \<Rightarrow> string \<Rightarrow> filesystem \<Rightarrow> string option \<times> filesystem" where
  "copyDeps embedded dst fs =
     walk_files (copyDeps_entry embedded dst) (''.'' # walk_order (map fst embedded)) fs"

text \<open>\<^verbatim>\<open>renameImports\<close>: the loop over the dependency names, then the function of its walk
  (\<^verbatim>\<open>pfx\<close> is the parameter \<^verbatim>\<open>prefix\<close>).\<close>

definition rename_dep :: "string \<Rightarrow> string \<Rightarrow> string \<Rightarrow> string" where
  "rename_dep pfx data dep =
     (if dep = [] then data
      else strings_ReplaceAll data dep (pfx @ ''/'' @ dep))"

definition rename_deps :: "string list \<Rightarrow> string \<Rightarrow> string \<Rightarrow> string" where
  "rename_deps depList pfx data = foldl (rename_dep pfx) data depList"

definition renameImports_file ::
  "string list \<Rightarrow> string \<Rightarrow> string \<Rightarrow> filesystem \<Rightarrow> string + filesystem" where
  "renameImports_file depList pfx path fs =
     (if fs_lookup fs path \<noteq> Some Directory \<and> strings_HasSuffix path ''.go''
      then (case os_ReadFile fs path of
              Inl err \<Rightarrow> Inl err
            | Inr data \<Rightarrow> os_WriteFile fs path (rename_deps depList pfx data))
      else Inr fs)"

definition renameImports :: "string \<Rightarrow> string \<Rightarrow> filesystem \<Rightarrow> string option \<times> filesystem" where
  "renameImports root pfx fs =
     (case os_ReadFile fs (filepath_Join [root, vendorDirName, depsFileName]) of
        Inl err \<Rightarrow> (Some err, fs)
      | Inr deps \<Rightarrow>
          filepath_Walk root (renameImports_file (strings_Split deps CHR 0x0A) pfx) fs)"

text \<open>
  The world of one run. \<^verbatim>\<open>flag.Parse\<close> has read the command line: the values
  of \<^verbatim>\<open>-file\<close> and \<^verbatim>\<open>-type\<close>, or a request for help, or an error (the flag
  package then exits by itself, with status 0 and 2). The embedded template
  \<^verbatim>\<open>main.templ\<close> is not part of the sources at hand: \<^verbatim>\<open>mainTempl\<close> is what
  parsing and executing it gives for an \<^verbatim>\<open>importInfo\<close>. \<^verbatim>\<open>go_run\<close> is the child
  process \<^verbatim>\<open>go run\<close>, given the file system it finds, its directory and the
  program; it leaves the modelled file system as it is. \<^verbatim>\<open>remove_refused\<close> is
  the error of the system for a path that it does not let \<^verbatim>\<open>os.RemoveAll\<close>
  remove.
\<close>

datatype cmdline = Flag_values string string | Flag_help | Flag_error string

datatype templ_result =
    Templ_parse_error string
  | Templ_exec_error string string
  | Templ_ok string

datatype child_result =
    Exited nat string string
  | Run_failed string string string

record world =
  flags :: cmdline
  os_Getwd :: "string + string"
  disk :: filesystem
  embedFS :: filesystem
  mainTempl :: "importInfo \<Rightarrow> templ_result"
  go_run :: "filesystem \<Rightarrow> string \<Rightarrow> string \<Rightarrow> child_result"
  remove_refused :: "string \<Rightarrow> string option"

function decimal :: "nat \<Rightarrow> string" where
  "decimal n =
     (if n < 10 then [char_of (48 + n)]
      else decimal (n div 10) @ [char_of (48 + n mod 10)])"
  by pat_completeness auto
termination
  by (relation "measure (\<lambda>n. n)") auto

declare decimal.simps [simp del]

text \<open>
  The error of \<^verbatim>\<open>cmd.Run\<close>: none exactly for a child that ran and exited with
  status 0. \<^verbatim>\<open>Run_failed\<close> is every other error, with what was captured: a child
  that did not start, or one ended by a signal.
\<close>

definition cmd_Run :: "child_result \<Rightarrow> string option" where
  "cmd_Run child =
     (case child of
        Exited code out err \<Rightarrow> if code = 0 then None else Some (''exit status '' @ decimal code)
      | Run_failed msg out err \<Rightarrow> Some msg)"

definition stdOut :: "child_result \<Rightarrow> string" where
  "stdOut child = (case child of Exited code out err \<Rightarrow> out | Run_failed msg out err \<Rightarrow> out)"

definition stdErr :: "child_result \<Rightarrow> string" where
  "stdErr child = (case child of Exited code out err \<Rightarrow> err | Run_failed msg out err \<Rightarrow> err)"

text \<open>
  \<^verbatim>\<open>main\<close>, stage by stage. Lines 82 to 132 only read: \<^verbatim>\<open>main_importInfo\<close>
  returns the message handed to \<^verbatim>\<open>fail\<close>, or the \<^verbatim>\<open>importInfo\<close> with the
  directory of the file.
\<close>

definition main_importInfo :: "world \<Rightarrow> string \<Rightarrow> string \<Rightarrow> string + importInfo \<times> string" where
  "main_importInfo w filePath symbolName =
     (case filepath_Abs (os_Getwd w) filePath of
        Inl err \<Rightarrow> Inl err
      | Inr absPath \<Rightarrow>
          let fileName = filepath_Base absPath;
              fileDir = filepath_Dir absPath
          in (case parsePkgName (disk w) absPath of
                Inl err \<Rightarrow> Inl err
              | Inr pkgName \<Rightarrow>
                  let modDir = findGoMod (disk w) fileDir
                  in if modDir = [] then Inl (''go.mod not found for file '' @ fileDir)
                     else (case parseGoMod (disk w) modDir of
                             Inl err \<Rightarrow> Inl err
                           | Inr (modName, goVer) \<Rightarrow>
                               if modName = [] then Inl ''module name not found in go.mod''
                               else if string_less goVer ''1.18''
                               then Inl ''go mod version must be at least 1.18''
                               else (case filepath_Rel modDir fileDir of
                                       Inl err \<Rightarrow> Inl err
                                     | Inr rel \<Rightarrow>
                                         let relPath = (if rel = ''.'' then [] else rel);
                                             importPath =
                                               (if relPath \<noteq> [] then modName @ ''/'' @ relPath
                                                else modName)
                                         in Inr (\<lparr>ModuleName = modName,
                                                  PackageName = pkgName,
                                                  ImportName = importPath,
                                                  FileName = fileName,
                                                  RelativePath = relPath,
                                                  FilePath = filepath_Join [fileDir, fileName],
                                                  TypeName = symbolName\<rparr>,
                                                 fileDir)))))"

text \<open>
  Lines 134 to 149: the workspace is made and filled with the entry point and
  the embedded files. A stage returns the outcome of the run when the run ends
  in it, and the file system otherwise. \<^verbatim>\<open>template.Must\<close> panics when the
  template does not parse; a template that fails while it executes has written
  a part of its text.
\<close>

definition main_materialize :: "world \<Rightarrow> importInfo \<Rightarrow> string \<Rightarrow> outcome + filesystem" where
  "main_materialize w i fileDir =
     (let tmpDir = filepath_Join [fileDir, tmpDirName];
          tmpMain = filepath_Join [tmpDir, ''main.go''];
          tr1 = [Call_MkdirAll tmpDir]
      in case os_MkdirAll (disk w) tmpDir of
           Inl err \<Rightarrow> Inl (fail err (disk w) tr1)
         | Inr fs1 \<Rightarrow>
        (case os_Create fs1 tmpMain of
           Inl err \<Rightarrow> Inl (fail err fs1 tr1)
         | Inr fs2 \<Rightarrow>
        (case mainTempl w i of
           Templ_parse_error msg \<Rightarrow> Inl \<lparr>final = fs2, trace = tr1 @ [Panic msg]\<rparr>
         | Templ_exec_error written err \<Rightarrow>
             Inl (fail err (fs_store fs2 tmpMain (File written)) tr1)
         | Templ_ok text \<Rightarrow>
        (case copyDeps (embedFS w) tmpDir (fs_store fs2 tmpMain (File text)) of
           (err, fs4) \<Rightarrow>
             (case must err fs4 tr1 of Some r \<Rightarrow> Inl r | None \<Rightarrow> Inr fs4)))))"

text \<open>Line 148 and line 150: the import paths are rewritten.\<close>

definition main_rewritten :: "world \<Rightarrow> importInfo \<Rightarrow> string \<Rightarrow> outcome + filesystem" where
  "main_rewritten w i fileDir =
     (let importPath = ImportName i;
          tmpDir = filepath_Join [fileDir, tmpDirName];
          pfx = filepath_Join [importPath, tmpDirName, vendorDirName]
      in case main_materialize w i fileDir of
           Inl r \<Rightarrow> Inl r
         | Inr fs4 \<Rightarrow>
             (case renameImports tmpDir pfx fs4 of
                (err, fs5) \<Rightarrow>
                  (case must err fs5 [Call_MkdirAll tmpDir] of Some r \<Rightarrow> Inl r | None \<Rightarrow> Inr fs5)))"

text \<open>Lines 152 to 175: the child process, and what is made of its result.\<close>

definition main_execute :: "world \<Rightarrow> string \<Rightarrow> string \<Rightarrow> filesystem \<Rightarrow> outcome" where
  "main_execute w tmpDir tmpMain fs =
     (let child = go_run w fs tmpDir tmpMain;
          tr2 = [Call_MkdirAll tmpDir, Call_Run tmpDir tmpMain]
      in case cmd_Run child of
           Some err \<Rightarrow>
             fail (if stdErr child \<noteq> [] then err @ [CHR 0x0A] @ stdErr child else err) fs tr2
         | None \<Rightarrow>
             (let tr3 = tr2 @ [Call_RemoveAll tmpDir]
              in case os_RemoveAll (remove_refused w) fs tmpDir of
                   (err, fs6) \<Rightarrow>
                     (case must err fs6 tr3 of
                        Some r \<Rightarrow> r
                      | None \<Rightarrow> \<lparr>final = fs6, trace = tr3 @ [Stdout (stdOut child), Exit 0]\<rparr>)))"

definition main_run :: "world \<Rightarrow> importInfo \<Rightarrow> string \<Rightarrow> outcome" where
  "main_run w i fileDir =
     (let tmpDir = filepath_Join [fileDir, tmpDirName];
          tmpMain = filepath_Join [tmpDir, ''main.go'']
      in case main_rewritten w i fileDir of
           Inl r \<Rightarrow> r
         | Inr fs5 \<Rightarrow> main_execute w tmpDir tmpMain fs5)"

text \<open>Lines 69 to 80, and the stages in their order.\<close>

definition main :: "world \<Rightarrow> outcome" where
  "main w =
     (case flags w of
        Flag_help \<Rightarrow> \<lparr>final = disk w, trace = [Stderr_usage, Exit 0]\<rparr>
      | Flag_error msg \<Rightarrow> \<lparr>final = disk w, trace = [Stderr_text msg, Stderr_usage, Exit 2]\<rparr>
      | Flag_values filePath symbolName \<Rightarrow>
          if filePath = [] \<or> symbolName = []
          then \<lparr>final = disk w, trace = [Stderr_usage, Exit 1]\<rparr>
          else (case main_importInfo w filePath symbolName of
                  Inl err \<Rightarrow> fail err (disk w) []
                | Inr (i, fileDir) \<Rightarrow> main_run w i fileDir))"

text \<open>
  What a caller sees of a run: the exit status (2 after a panic), and what
  was written to standard error and to standard output.
\<close>

definition exit_status :: "outcome \<Rightarrow> nat" where
  "exit_status r = (case last (trace r) of Exit n \<Rightarrow> n | _ \<Rightarrow> 2)"

definition is_stderr :: "event \<Rightarrow> bool" where
  "is_stderr e =
     (case e of Stderr_json msg \<Rightarrow> True | Stderr_usage \<Rightarrow> True | Stderr_text msg \<Rightarrow> True
      | Panic msg \<Rightarrow> True | _ \<Rightarrow> False)"

definition stderr_of :: "outcome \<Rightarrow> event list" where
  "stderr_of r = filter is_stderr (trace r)"

definition stdout_of :: "outcome \<Rightarrow> string" where
  "stdout_of r = concat (map (\<lambda>e. case e of Stdout out \<Rightarrow> out | _ \<Rightarrow> []) (trace r))"

section \<open>Properties\<close>

subsection \<open>The stages of a run\<close>

text \<open>Every stage from the workspace on starts the trace with the call that makes it.\<close>

lemma main_execute_trace_hd:
  "hd (trace (main_execute w tmpDir tmpMain fs)) = Call_MkdirAll tmpDir"
  by (simp add: main_execute_def Let_def fail_def must_def split: option.splits prod.splits)

lemma must_trace_hd:
  "must err fs (e # tr) = Some r \<Longrightarrow> hd (trace r) = e"
  by (auto simp: must_def fail_def split: option.splits)

lemma main_materialize_trace_hd:
  assumes "main_materialize w i fileDir = Inl r"
  shows "hd (trace r) = Call_MkdirAll (filepath_Join [fileDir, tmpDirName])"
  using assms
  by (auto simp: main_materialize_def Let_def fail_def
      split: sum.splits templ_result.splits prod.splits option.splits dest: must_trace_hd)

lemma main_rewritten_trace_hd:
  assumes "main_rewritten w i fileDir = Inl r"
  shows "hd (trace r) = Call_MkdirAll (filepath_Join [fileDir, tmpDirName])"
  using assms
  by (auto simp: main_rewritten_def Let_def
      split: sum.splits prod.splits option.splits
      dest: must_trace_hd main_materialize_trace_hd)

lemma main_run_trace_hd:
  "hd (trace (main_run w i fileDir)) = Call_MkdirAll (filepath_Join [fileDir, tmpDirName])"
  by (auto simp: main_run_def Let_def main_execute_trace_hd
      split: sum.splits dest: main_rewritten_trace_hd)

text \<open>A run that has read the module file, and a run that has built its \<^verbatim>\<open>importInfo\<close>.\<close>

lemma main_at_go_mod:
  assumes "flags w = Flag_values filePath symbolName"
    and "filePath \<noteq> []" and "symbolName \<noteq> []"
    and "filepath_Abs (os_Getwd w) filePath = Inr absPath"
    and "parsePkgName (disk w) absPath = Inr pkgName"
    and "findGoMod (disk w) (filepath_Dir absPath) = modDir" and "modDir \<noteq> []"
    and "parseGoMod (disk w) modDir = Inr (modName, goVer)"
  shows "main w =
     (if modName = [] then fail ''module name not found in go.mod'' (disk w) []
      else if string_less goVer ''1.18''
      then fail ''go mod version must be at least 1.18'' (disk w) []
      else (case main_importInfo w filePath symbolName of
              Inl err \<Rightarrow> fail err (disk w) []
            | Inr (i, fileDir) \<Rightarrow> main_run w i fileDir))"
  using assms by (simp add: main_def main_importInfo_def Let_def)

lemma main_importInfo_cases:
  assumes "main_importInfo w filePath symbolName = Inr (i, fileDir)"
  obtains absPath pkgName modName goVer rel where
    "filepath_Abs (os_Getwd w) filePath = Inr absPath"
    "fileDir = filepath_Dir absPath"
    "parsePkgName (disk w) absPath = Inr pkgName"
    "findGoMod (disk w) fileDir \<noteq> []"
    "parseGoMod (disk w) (findGoMod (disk w) fileDir) = Inr (modName, goVer)"
    "modName \<noteq> []" "\<not> string_less goVer ''1.18''"
    "filepath_Rel (findGoMod (disk w) fileDir) fileDir = Inr rel"
    "i = \<lparr>ModuleName = modName, PackageName = pkgName,
          ImportName = (if (if rel = ''.'' then [] else rel) \<noteq> []
                        then modName @ ''/'' @ (if rel = ''.'' then [] else rel) else modName),
          FileName = filepath_Base absPath,
          RelativePath = (if rel = ''.'' then [] else rel),
          FilePath = filepath_Join [fileDir, filepath_Base absPath],
          TypeName = symbolName\<rparr>"
proof -
  note d = main_importInfo_def Let_def
  obtain absPath where a: "filepath_Abs (os_Getwd w) filePath = Inr absPath"
    using assms by (cases "filepath_Abs (os_Getwd w) filePath") (simp_all add: d)
  obtain pkgName where p: "parsePkgName (disk w) absPath = Inr pkgName"
    using assms a by (cases "parsePkgName (disk w) absPath") (simp_all add: d)
  let ?modDir = "findGoMod (disk w) (filepath_Dir absPath)"
  have m: "?modDir \<noteq> []"
    using assms a p by (cases "?modDir = []") (simp_all add: d)
  obtain modName goVer where g: "parseGoMod (disk w) ?modDir = Inr (modName, goVer)"
    using assms a p m by (cases "parseGoMod (disk w) ?modDir") (auto simp: d)
  have n: "modName \<noteq> []"
    using assms a p m g by (cases "modName = []") (simp_all add: d)
  have v: "\<not> string_less goVer ''1.18''"
    using assms a p m g n by (cases "string_less goVer ''1.18''") (simp_all add: d)
  obtain rel where r: "filepath_Rel ?modDir (filepath_Dir absPath) = Inr rel"
    using assms a p m g n v
    by (cases "filepath_Rel ?modDir (filepath_Dir absPath)") (simp_all add: d)
  have fd: "fileDir = filepath_Dir absPath"
    using assms a p m g n v r by (simp add: d)
  have "i = \<lparr>ModuleName = modName, PackageName = pkgName,
          ImportName = (if (if rel = ''.'' then [] else rel) \<noteq> []
                        then modName @ ''/'' @ (if rel = ''.'' then [] else rel) else modName),
          FileName = filepath_Base absPath,
          RelativePath = (if rel = ''.'' then [] else rel),
          FilePath = filepath_Join [fileDir, filepath_Base absPath],
          TypeName = symbolName\<rparr>"
    using assms a p m g n v r by (auto simp: d)
  with a p m g n v r fd that show thesis by simp
qed

subsection \<open>An example\<close>

text \<open>
  The scenario of the specification: the file \<^verbatim>\<open>pkg/models.go\<close> of a module
  rooted at \<^verbatim>\<open>/m\<close>, the command run from there (and a second file,
  \<^verbatim>\<open>app.go\<close>, in the module root). The module file and the result
  of the child process vary. The embedded snapshot is one dependency with its
  manifest; the template imports the target package and that dependency.
\<close>

definition example_disk :: "string \<Rightarrow> filesystem" where
  "example_disk gomod =
     [(''/'', Directory), (''/m'', Directory), (''/m/go.mod'', File gomod),
      (''/m/pkg'', Directory),
      (''/m/pkg/models.go'', File ''package models
type User struct { Name string }
''),
      (''/m/app.go'', File ''package app
'')]"

definition example_embedFS :: filesystem where
  "example_embedFS =
     [(''main.templ'', File ''template''),
      (''vendored'', Directory),
      (''vendored/deps.txt'', File ''gopkg.in/yaml.v3
''),
      (''vendored/gopkg.in'', Directory),
      (''vendored/gopkg.in/yaml.v3'', Directory),
      (''vendored/gopkg.in/yaml.v3/yaml.go'', File ''package yaml
'')]"

definition example_mainTempl :: "importInfo \<Rightarrow> templ_result" where
  \<open>example_mainTempl i =
     Templ_ok (''package main
import target "'' @ ImportName i @ ''"
import "gopkg.in/yaml.v3"
'')\<close>

definition example_world :: "string \<Rightarrow> child_result \<Rightarrow> world" where
  "example_world gomod child =
     \<lparr>flags = Flag_values ''pkg/models.go'' ''User'',
      os_Getwd = Inr ''/m'',
      disk = example_disk gomod,
      embedFS = example_embedFS,
      mainTempl = example_mainTempl,
      go_run = (\<lambda>fs dir prog. child),
      remove_refused = (\<lambda>name. None)\<rparr>"

definition example_gomod :: "string \<Rightarrow> string" where
  "example_gomod goVer = ''module example.com/app'' @ [CHR 0x0A] @ ''go '' @ goVer @ [CHR 0x0A]"

lemma example_Abs:
  "filepath_Abs (os_Getwd (example_world gomod child)) ''pkg/models.go'' = Inr ''/m/pkg/models.go''"
  by (simp add: example_world_def) code_simp

lemma example_Dir: "filepath_Dir ''/m/pkg/models.go'' = ''/m/pkg''"
  by code_simp

lemma example_parsePkgName:
  "parsePkgName (disk (example_world gomod child)) ''/m/pkg/models.go'' = Inr ''models''"
  by (simp add: example_world_def example_disk_def parsePkgName_def fs_lookup_def) code_simp

lemma example_findGoMod:
  "findGoMod (disk (example_world gomod child)) ''/m/pkg'' = ''/m''"
proof -
  have j1: "filepath_Join [''/m/pkg'', ''go.mod''] = ''/m/pkg/go.mod''" by code_simp
  have j2: "filepath_Join [''/m'', ''go.mod''] = ''/m/go.mod''" by code_simp
  have d: "filepath_Dir ''/m/pkg'' = ''/m''" by code_simp
  show ?thesis
    by (simp add: findGoMod.simps [of _ "''/m/pkg''"] findGoMod.simps [of _ "''/m''"]
        j1 j2 d os_Stat_def fs_lookup_def example_world_def example_disk_def)
qed

lemma example_ReadFile:
  "os_ReadFile (disk (example_world gomod child)) (filepath_Join [''/m'', ''go.mod'']) = Inr gomod"
proof -
  have j2: "filepath_Join [''/m'', ''go.mod''] = ''/m/go.mod''" by code_simp
  show ?thesis
    by (simp add: j2 os_ReadFile_def fs_lookup_def example_world_def example_disk_def)
qed

subsection \<open>The module file\<close>

lemma example_parseGoMod:
  assumes "parseGoMod_lines (strings_Split gomod CHR 0x0A) ([], []) = r"
  shows "parseGoMod (disk (example_world gomod child)) ''/m'' = Inr r"
  using assms example_ReadFile [of gomod child] by (simp add: parseGoMod_def)

lemma example_main_importInfo:
  "main_importInfo (example_world (example_gomod ''1.20'') child) ''pkg/models.go'' ''User'' =
     Inr (\<lparr>ModuleName = ''example.com/app'', PackageName = ''models'',
            ImportName = ''example.com/app/pkg'', FileName = ''models.go'',
            RelativePath = ''pkg'', FilePath = ''/m/pkg/models.go'',
            TypeName = ''User''\<rparr>, ''/m/pkg'')"
proof -
  have g: "parseGoMod_lines (strings_Split (example_gomod ''1.20'') CHR 0x0A) ([], []) =
             (''example.com/app'', ''1.20'')"
    by code_simp
  have v: "\<not> string_less ''1.20'' ''1.18''" by simp
  have r: "filepath_Rel ''/m'' ''/m/pkg'' = Inr ''pkg''" by code_simp
  have b: "filepath_Base ''/m/pkg/models.go'' = ''models.go''" by code_simp
  have j: "filepath_Join [''/m/pkg'', ''models.go''] = ''/m/pkg/models.go''" by code_simp
  show ?thesis
    by (simp add: main_importInfo_def Let_def example_Abs example_Dir example_parsePkgName
        example_findGoMod example_parseGoMod [OF g] v r b j)
qed

lemma string_less_iff: "string_less a b \<longleftrightarrow> a < b"
  by (induction a b rule: string_less.induct) (auto simp: less_char_def)

lemma main_importInfo_version_ok:
  assumes "filepath_Abs (os_Getwd w) filePath = Inr absPath"
    and "parsePkgName (disk w) absPath = Inr pkgName"
    and "findGoMod (disk w) (filepath_Dir absPath) = modDir" and "modDir \<noteq> []"
    and "parseGoMod (disk w) modDir = Inr (modName, goVer)"
    and "modName \<noteq> []" and "\<not> string_less goVer ''1.18''"
  shows "main_importInfo w filePath symbolName \<noteq> Inl ''go mod version must be at least 1.18''"
  using assms
  by (auto simp: main_importInfo_def Let_def filepath_Rel_def rel_error_def
      split: sum.splits prod.splits if_splits)

text \<open>
  Claim C4, as amended. Once the module file is parsed and names a module, the
  run fails with the message of the version floor exactly when the parsed
  version is below \<^verbatim>\<open>1.18\<close> in the order of Go on strings, which is the lexical
  order of the bytes.
\<close>

theorem version_floor_is_lexical:
  assumes "flags w = Flag_values filePath symbolName"
    and "filePath \<noteq> []" and "symbolName \<noteq> []"
    and "filepath_Abs (os_Getwd w) filePath = Inr absPath"
    and "parsePkgName (disk w) absPath = Inr pkgName"
    and "findGoMod (disk w) (filepath_Dir absPath) = modDir" and "modDir \<noteq> []"
    and "parseGoMod (disk w) modDir = Inr (modName, goVer)"
    and "modName \<noteq> []"
  shows "(trace (main w) = [Stderr_json ''go mod version must be at least 1.18'', Exit 1]
            \<longleftrightarrow> string_less goVer ''1.18'')
       \<and> (string_less goVer ''1.18'' \<longleftrightarrow> goVer < ''1.18'')"
proof -
  note m = main_at_go_mod [OF assms(1-8)]
  have "trace (main w) = [Stderr_json ''go mod version must be at least 1.18'', Exit 1]"
    if "string_less goVer ''1.18''"
    using that assms(9) by (simp add: m fail_def)
  moreover have "trace (main w) \<noteq> [Stderr_json ''go mod version must be at least 1.18'', Exit 1]"
    if no: "\<not> string_less goVer ''1.18''"
  proof (cases "main_importInfo w filePath symbolName")
    case (Inl err)
    with main_importInfo_version_ok [OF assms(4-9) no, of symbolName]
    have "err \<noteq> ''go mod version must be at least 1.18''" by auto
    with Inl no assms(9) show ?thesis by (simp add: m fail_def)
  next
    case (Inr p)
    obtain i fileDir where p: "p = (i, fileDir)" by (cases p)
    have "hd (trace (main_run w i fileDir)) \<noteq> Stderr_json ''go mod version must be at least 1.18''"
      by (simp add: main_run_trace_hd)
    then have "trace (main_run w i fileDir) \<noteq> [Stderr_json ''go mod version must be at least 1.18'', Exit 1]"
      by auto
    with Inr p no assms(9) show ?thesis by (simp add: m)
  qed
  ultimately show ?thesis using string_less_iff by blast
qed

theorem version_floor_is_lexical_witness:
  "string_less ''1.17'' ''1.18''
   \<and> trace (main (example_world (example_gomod ''1.17'') (Exited 0 [] []))) =
       [Stderr_json ''go mod version must be at least 1.18'', Exit 1]"
proof -
  let ?w = "example_world (example_gomod ''1.17'') (Exited 0 [] [])"
  have f: "flags ?w = Flag_values ''pkg/models.go'' ''User''" by (simp add: example_world_def)
  have g: "parseGoMod_lines (strings_Split (example_gomod ''1.17'') CHR 0x0A) ([], []) =
             (''example.com/app'', ''1.17'')"
    by code_simp
  from version_floor_is_lexical [OF f _ _ example_Abs example_parsePkgName _ _
      example_parseGoMod [OF g], unfolded example_Dir, OF _ _ example_findGoMod]
  show ?thesis by simp
qed

text \<open>
  The claim as it is written fails on its own example: \<^verbatim>\<open>1.9\<close> is not below
  \<^verbatim>\<open>1.18\<close> in that order, and a module that declares \<^verbatim>\<open>go 1.9\<close> passes the check
  (here the run goes on to its end).
\<close>

theorem version_1_9_is_accepted:
  "\<not> string_less ''1.9'' ''1.18''
   \<and> parseGoMod (disk (example_world (example_gomod ''1.9'') (Exited 0 ''{}'' [])))
         ''/m'' = Inr (''example.com/app'', ''1.9'')
   \<and> exit_status (main (example_world (example_gomod ''1.9'') (Exited 0 ''{}'' []))) = 0
   \<and> stderr_of (main (example_world (example_gomod ''1.9'') (Exited 0 ''{}'' []))) = []"
  by code_simp

text \<open>
  Claim C9. A module file that names a module and has no line that starts
  with \<^verbatim>\<open>go\<close> and a space leaves the version empty; the empty string is below
  \<^verbatim>\<open>1.18\<close>, and the run fails with the message of the version floor.
\<close>

lemma parseGoMod_lines_no_go:
  assumes "\<forall>line \<in> set lines. \<not> strings_HasPrefix line ''go ''"
  shows "snd (parseGoMod_lines lines (modName, [])) = []"
  using assms
proof (induction lines arbitrary: modName)
  case Nil
  show ?case by simp
next
  case (Cons line lines)
  then show ?case by (simp add: Let_def)
qed

theorem missing_go_line_fails_version_floor:
  assumes "flags w = Flag_values filePath symbolName"
    and "filePath \<noteq> []" and "symbolName \<noteq> []"
    and "filepath_Abs (os_Getwd w) filePath = Inr absPath"
    and "parsePkgName (disk w) absPath = Inr pkgName"
    and "findGoMod (disk w) (filepath_Dir absPath) = modDir" and "modDir \<noteq> []"
    and "os_ReadFile (disk w) (filepath_Join [modDir, ''go.mod'']) = Inr data"
    and "\<forall>line \<in> set (strings_Split data CHR 0x0A). \<not> strings_HasPrefix line ''go ''"
    and "fst (parseGoMod_lines (strings_Split data CHR 0x0A) ([], [])) \<noteq> []"
  shows "snd (parseGoMod_lines (strings_Split data CHR 0x0A) ([], [])) = []
       \<and> string_less [] ''1.18''
       \<and> trace (main w) = [Stderr_json ''go mod version must be at least 1.18'', Exit 1]"
proof -
  let ?r = "parseGoMod_lines (strings_Split data CHR 0x0A) ([], [])"
  have v: "snd ?r = []" by (rule parseGoMod_lines_no_go [OF assms(9)])
  have p: "parseGoMod (disk w) modDir = Inr (fst ?r, snd ?r)"
    using assms(8) by (simp add: parseGoMod_def)
  have "trace (main w) = [Stderr_json ''go mod version must be at least 1.18'', Exit 1]"
    using assms(10) v by (simp add: main_at_go_mod [OF assms(1-7) p] fail_def)
  with v show ?thesis by simp
qed

theorem missing_go_line_witness:
  "trace (main (example_world (''module example.com/app'' @ [CHR 0x0A]) (Exited 0 [] []))) =
     [Stderr_json ''go mod version must be at least 1.18'', Exit 1]"
proof -
  let ?g = "''module example.com/app'' @ [CHR 0x0A]"
  let ?w = "example_world ?g (Exited 0 [] [])"
  have f: "flags ?w = Flag_values ''pkg/models.go'' ''User''" by (simp add: example_world_def)
  have n: "\<forall>line \<in> set (strings_Split ?g CHR 0x0A). \<not> strings_HasPrefix line ''go ''"
    by code_simp
  have m: "fst (parseGoMod_lines (strings_Split ?g CHR 0x0A) ([], [])) \<noteq> []"
    by code_simp
  from missing_go_line_fails_version_floor [OF f _ _ example_Abs example_parsePkgName _ _
      example_ReadFile n m, unfolded example_Dir, OF _ _ example_findGoMod]
  show ?thesis by simp
qed

subsection \<open>The import path\<close>

text \<open>
  Claim C5. \<^verbatim>\<open>main\<close> builds its \<^verbatim>\<open>importInfo\<close> exactly when the file has a
  package name and a module root whose module file names a module and a
  version not below the floor, and \<^verbatim>\<open>filepath.Rel\<close> gives a path from the
  module root to the directory of the file. The relative path is then that
  path, with \<^verbatim>\<open>.\<close> replaced by the empty string, and the import path is the
  module name, followed by a slash and the relative path when that is not
  empty.
\<close>

theorem import_path_composition:
  "main_importInfo w filePath symbolName = Inr (i, fileDir) \<longleftrightarrow>
     (\<exists>absPath pkgName modName goVer rel relative_path import_path.
        filepath_Abs (os_Getwd w) filePath = Inr absPath
      \<and> fileDir = filepath_Dir absPath
      \<and> parsePkgName (disk w) absPath = Inr pkgName
      \<and> findGoMod (disk w) fileDir \<noteq> []
      \<and> parseGoMod (disk w) (findGoMod (disk w) fileDir) = Inr (modName, goVer)
      \<and> modName \<noteq> [] \<and> \<not> string_less goVer ''1.18''
      \<and> filepath_Rel (findGoMod (disk w) fileDir) fileDir = Inr rel
      \<and> relative_path = (if rel = ''.'' then [] else rel)
      \<and> import_path =
           (if relative_path \<noteq> [] then modName @ ''/'' @ relative_path else modName)
      \<and> i = \<lparr>ModuleName = modName, PackageName = pkgName, ImportName = import_path,
               FileName = filepath_Base absPath, RelativePath = relative_path,
               FilePath = filepath_Join [fileDir, filepath_Base absPath],
               TypeName = symbolName\<rparr>)"
  (is "?l \<longleftrightarrow> ?r")
proof
  assume ?l
  then obtain absPath pkgName modName goVer rel where
    "filepath_Abs (os_Getwd w) filePath = Inr absPath" "fileDir = filepath_Dir absPath"
    "parsePkgName (disk w) absPath = Inr pkgName"
    "findGoMod (disk w) fileDir \<noteq> []"
    "parseGoMod (disk w) (findGoMod (disk w) fileDir) = Inr (modName, goVer)"
    "modName \<noteq> []" "\<not> string_less goVer ''1.18''"
    "filepath_Rel (findGoMod (disk w) fileDir) fileDir = Inr rel"
    "i = \<lparr>ModuleName = modName, PackageName = pkgName,
          ImportName = (if (if rel = ''.'' then [] else rel) \<noteq> []
                        then modName @ ''/'' @ (if rel = ''.'' then [] else rel) else modName),
          FileName = filepath_Base absPath,
          RelativePath = (if rel = ''.'' then [] else rel),
          FilePath = filepath_Join [fileDir, filepath_Base absPath],
          TypeName = symbolName\<rparr>"
    by (rule main_importInfo_cases)
  then show ?r by blast
next
  assume ?r
  then obtain absPath pkgName modName goVer rel relative_path import_path where
    h: "filepath_Abs (os_Getwd w) filePath = Inr absPath" "fileDir = filepath_Dir absPath"
    "parsePkgName (disk w) absPath = Inr pkgName"
    "findGoMod (disk w) fileDir \<noteq> []"
    "parseGoMod (disk w) (findGoMod (disk w) fileDir) = Inr (modName, goVer)"
    "modName \<noteq> []" "\<not> string_less goVer ''1.18''"
    "filepath_Rel (findGoMod (disk w) fileDir) fileDir = Inr rel"
    "relative_path = (if rel = ''.'' then [] else rel)"
    "import_path = (if relative_path \<noteq> [] then modName @ ''/'' @ relative_path else modName)"
    "i = \<lparr>ModuleName = modName, PackageName = pkgName, ImportName = import_path,
               FileName = filepath_Base absPath, RelativePath = relative_path,
               FilePath = filepath_Join [fileDir, filepath_Base absPath],
               TypeName = symbolName\<rparr>"
    by blast
  from h(2) h(4-8) have
    "findGoMod (disk w) (filepath_Dir absPath) \<noteq> []"
    "parseGoMod (disk w) (findGoMod (disk w) (filepath_Dir absPath)) = Inr (modName, goVer)"
    "filepath_Rel (findGoMod (disk w) (filepath_Dir absPath)) (filepath_Dir absPath) = Inr rel"
    by simp_all
  with h(1,3,6,7) have "main_importInfo w filePath symbolName =
      Inr (\<lparr>ModuleName = modName, PackageName = pkgName,
          ImportName = (if (if rel = ''.'' then [] else rel) \<noteq> []
                        then modName @ ''/'' @ (if rel = ''.'' then [] else rel) else modName),
          FileName = filepath_Base absPath,
          RelativePath = (if rel = ''.'' then [] else rel),
          FilePath = filepath_Join [filepath_Dir absPath, filepath_Base absPath],
          TypeName = symbolName\<rparr>, filepath_Dir absPath)"
    by (simp add: main_importInfo_def Let_def)
  with h(2,9-11) show ?l by simp
qed

text \<open>
  Two runs: for the file in \<^verbatim>\<open>pkg\<close> the import path is the module name with
  \<^verbatim>\<open>/pkg\<close>; for the file in the module root it is the module name.
\<close>

theorem import_path_composition_witness:
  "main_importInfo (example_world (example_gomod ''1.18'') (Exited 0 [] []))
       ''pkg/models.go'' ''User'' =
     Inr (\<lparr>ModuleName = ''example.com/app'', PackageName = ''models'',
            ImportName = ''example.com/app/pkg'', FileName = ''models.go'',
            RelativePath = ''pkg'', FilePath = ''/m/pkg/models.go'',
            TypeName = ''User''\<rparr>, ''/m/pkg'')
   \<and> main_importInfo (example_world (example_gomod ''1.18'') (Exited 0 [] []))
       ''app.go'' ''App'' =
     Inr (\<lparr>ModuleName = ''example.com/app'', PackageName = ''app'',
            ImportName = ''example.com/app'', FileName = ''app.go'',
            RelativePath = [], FilePath = ''/m/app.go'',
            TypeName = ''App''\<rparr>, ''/m'')"
proof -
  let ?w = "example_world (example_gomod ''1.18'') (Exited 0 [] [])"
  have g: "parseGoMod_lines (strings_Split (example_gomod ''1.18'') CHR 0x0A) ([], []) =
             (''example.com/app'', ''1.18'')"
    by code_simp
  have v: "\<not> string_less ''1.18'' ''1.18''" by simp
  have r: "filepath_Rel ''/m'' ''/m/pkg'' = Inr ''pkg''" "filepath_Rel ''/m'' ''/m'' = Inr ''.''"
    by code_simp+
  have b: "filepath_Base ''/m/pkg/models.go'' = ''models.go''"
    "filepath_Base ''/m/app.go'' = ''app.go''" by code_simp+
  have j: "filepath_Join [''/m/pkg'', ''models.go''] = ''/m/pkg/models.go''"
    "filepath_Join [''/m'', ''app.go''] = ''/m/app.go''" by code_simp+
  have a: "filepath_Abs (os_Getwd ?w) ''app.go'' = Inr ''/m/app.go''"
    by (simp add: example_world_def) code_simp
  have d: "filepath_Dir ''/m/app.go'' = ''/m''" by code_simp
  have p: "parsePkgName (disk ?w) ''/m/app.go'' = Inr ''app''"
    by (simp add: example_world_def example_disk_def parsePkgName_def fs_lookup_def) code_simp
  have f: "findGoMod (disk ?w) ''/m'' = ''/m''"
  proof -
    have "filepath_Join [''/m'', ''go.mod''] = ''/m/go.mod''" by code_simp
    then show ?thesis
      by (simp add: findGoMod.simps [of _ "''/m''"] os_Stat_def fs_lookup_def
          example_world_def example_disk_def)
  qed
  note t = import_path_composition [THEN iffD2, OF exI, OF exI, OF exI, OF exI, OF exI,
      OF exI, OF exI]
  have 1: "main_importInfo ?w ''pkg/models.go'' ''User'' =
     Inr (\<lparr>ModuleName = ''example.com/app'', PackageName = ''models'',
            ImportName = ''example.com/app/pkg'', FileName = ''models.go'',
            RelativePath = ''pkg'', FilePath = ''/m/pkg/models.go'',
            TypeName = ''User''\<rparr>, ''/m/pkg'')"
    by (rule t [of _ _ "''/m/pkg/models.go''" _ "''models''" "''example.com/app''" "''1.18''"
          "''pkg''" "''pkg''" "''example.com/app/pkg''"])
       (simp add: example_Abs example_Dir example_parsePkgName example_findGoMod
          example_parseGoMod [OF g] v r b j)
  have 2: "main_importInfo ?w ''app.go'' ''App'' =
     Inr (\<lparr>ModuleName = ''example.com/app'', PackageName = ''app'',
            ImportName = ''example.com/app'', FileName = ''app.go'',
            RelativePath = [], FilePath = ''/m/app.go'',
            TypeName = ''App''\<rparr>, ''/m'')"
    by (rule t [of _ _ "''/m/app.go''" _ "''app''" "''example.com/app''" "''1.18''"
          "''.''" "[]" "''example.com/app''"])
       (simp add: a d p f example_parseGoMod [OF g] v r b j)
  from 1 2 show ?thesis by simp
qed

subsection \<open>How a run ends\<close>

lemma must_cases:
  "must err fs tr = (case err of Some msg \<Rightarrow> Some (fail msg fs tr) | None \<Rightarrow> None)"
  by (simp add: must_def)

lemma main_materialize_Inl:
  assumes "main_materialize w i fileDir = Inl r"
  shows "(\<exists>msg. trace r = [Call_MkdirAll (filepath_Join [fileDir, tmpDirName]), Stderr_json msg, Exit 1])
       \<or> (\<exists>msg. mainTempl w i = Templ_parse_error msg
              \<and> trace r = [Call_MkdirAll (filepath_Join [fileDir, tmpDirName]), Panic msg])"
proof -
  let ?tmpDir = "filepath_Join [fileDir, tmpDirName]"
  let ?tmpMain = "filepath_Join [?tmpDir, ''main.go'']"
  note d = main_materialize_def Let_def fail_def must_def
  show ?thesis
  proof (cases "os_MkdirAll (disk w) ?tmpDir")
    case Inl
    with assms show ?thesis by (auto simp: d)
  next
    case fs1: (Inr fs1)
    show ?thesis
    proof (cases "os_Create fs1 ?tmpMain")
      case Inl
      with assms fs1 show ?thesis by (auto simp: d)
    next
      case fs2: (Inr fs2)
      show ?thesis
      proof (cases "mainTempl w i")
        case Templ_parse_error
        with assms fs1 fs2 show ?thesis by (auto simp: d)
      next
        case Templ_exec_error
        with assms fs1 fs2 show ?thesis by (auto simp: d)
      next
        case (Templ_ok rendered)
        with assms fs1 fs2 show ?thesis
          by (auto simp: d split: prod.splits option.splits)
      qed
    qed
  qed
qed

lemma main_rewritten_Inl:
  assumes "main_rewritten w i fileDir = Inl r"
  shows "(\<exists>msg. trace r = [Call_MkdirAll (filepath_Join [fileDir, tmpDirName]), Stderr_json msg, Exit 1])
       \<or> (\<exists>msg. mainTempl w i = Templ_parse_error msg
              \<and> trace r = [Call_MkdirAll (filepath_Join [fileDir, tmpDirName]), Panic msg])"
proof (cases "main_materialize w i fileDir")
  case (Inl r')
  with assms have "r' = r" by (simp add: main_rewritten_def Let_def)
  with Inl main_materialize_Inl show ?thesis by blast
next
  case (Inr fs4)
  with assms show ?thesis
    by (auto simp: main_rewritten_def Let_def fail_def must_def split: prod.splits option.splits)
qed

lemma cmd_Run_None: "cmd_Run child = None \<longleftrightarrow> (\<exists>out err. child = Exited 0 out err)"
  by (cases child) (auto simp: cmd_Run_def)

lemma main_execute_failed:
  assumes "cmd_Run (go_run w fs tmpDir tmpMain) = Some msg"
  shows "main_execute w tmpDir tmpMain fs =
           fail (if stdErr (go_run w fs tmpDir tmpMain) \<noteq> []
                 then msg @ [CHR 0x0A] @ stdErr (go_run w fs tmpDir tmpMain) else msg)
             fs [Call_MkdirAll tmpDir, Call_Run tmpDir tmpMain]"
  using assms by (simp add: main_execute_def Let_def)

text \<open>\<^verbatim>\<open>os.RemoveAll\<close> without an error has removed all there was.\<close>

lemma os_RemoveAll_done:
  assumes "os_RemoveAll refused fs path = (None, fs')"
  shows "fs' = filter (\<lambda>(name, n). \<not> path_under path name) fs"
proof -
  let ?stuck = "filter (\<lambda>name. refused name \<noteq> None)
                  (walk_order (filter (path_under path) (map fst fs)))"
  have "?stuck = []"
  proof (cases ?stuck)
    case Nil
    then show ?thesis .
  next
    case (Cons name others)
    then have "name \<in> set ?stuck" by simp
    then have "refused name \<noteq> None" by simp
    with assms Cons show ?thesis by (simp add: os_RemoveAll_def Let_def)
  qed
  with assms show ?thesis by (auto simp: os_RemoveAll_def Let_def)
qed

lemma os_RemoveAll_allowed:
  assumes "\<And>name. refused name = None"
  shows "fst (os_RemoveAll refused fs path) = None"
  using assms by (simp add: os_RemoveAll_def Let_def)

lemma main_execute_removed:
  assumes "cmd_Run (go_run w fs tmpDir tmpMain) = None"
    and "fst (os_RemoveAll (remove_refused w) fs tmpDir) = None"
  shows "main_execute w tmpDir tmpMain fs =
           \<lparr>final = filter (\<lambda>(name, n). \<not> path_under tmpDir name) fs,
            trace = [Call_MkdirAll tmpDir, Call_Run tmpDir tmpMain, Call_RemoveAll tmpDir,
                     Stdout (stdOut (go_run w fs tmpDir tmpMain)), Exit 0]\<rparr>"
proof -
  obtain fs' where r: "os_RemoveAll (remove_refused w) fs tmpDir = (None, fs')"
    using assms(2) by (cases "os_RemoveAll (remove_refused w) fs tmpDir") auto
  from os_RemoveAll_done [OF r] r assms(1) show ?thesis
    by (simp add: main_execute_def Let_def must_def)
qed

lemma main_execute_not_removed:
  assumes "cmd_Run (go_run w fs tmpDir tmpMain) = None"
    and "fst (os_RemoveAll (remove_refused w) fs tmpDir) = Some msg"
  shows "main_execute w tmpDir tmpMain fs =
           fail msg (snd (os_RemoveAll (remove_refused w) fs tmpDir))
             [Call_MkdirAll tmpDir, Call_Run tmpDir tmpMain, Call_RemoveAll tmpDir]"
  using assms
  by (cases "os_RemoveAll (remove_refused w) fs tmpDir")
     (simp add: main_execute_def Let_def must_def)


lemma main_run_rewritten:
  assumes "main_rewritten w i fileDir = Inr fs"
  shows "main_run w i fileDir =
           main_execute w (filepath_Join [fileDir, tmpDirName])
             (filepath_Join [filepath_Join [fileDir, tmpDirName], ''main.go'']) fs"
  using assms by (simp add: main_run_def Let_def)

lemma main_run_not_rewritten:
  assumes "main_rewritten w i fileDir = Inl r"
  shows "main_run w i fileDir = r"
  using assms by (simp add: main_run_def Let_def)

lemma main_ready:
  assumes "flags w = Flag_values filePath symbolName"
    and "filePath \<noteq> []" and "symbolName \<noteq> []"
    and "main_importInfo w filePath symbolName = Inr (i, fileDir)"
  shows "main w = main_run w i fileDir"
  using assms by (simp add: main_def)

lemma exit_status_fail [simp]: "exit_status (fail msg fs tr) = 1"
  by (simp add: exit_status_def fail_def)

lemma main_run_failure_shape:
  assumes "exit_status (main_run w i fileDir) \<noteq> 0"
  shows "(\<exists>msg tr. trace (main_run w i fileDir) = tr @ [Stderr_json msg, Exit 1]
            \<and> set tr \<subseteq> {Call_MkdirAll (filepath_Join [fileDir, tmpDirName]),
                 Call_Run (filepath_Join [fileDir, tmpDirName])
                   (filepath_Join [filepath_Join [fileDir, tmpDirName], ''main.go'']),
                 Call_RemoveAll (filepath_Join [fileDir, tmpDirName])})
       \<or> (\<exists>msg. mainTempl w i = Templ_parse_error msg
              \<and> trace (main_run w i fileDir) =
                  [Call_MkdirAll (filepath_Join [fileDir, tmpDirName]), Panic msg])"
proof (cases "main_rewritten w i fileDir")
  case (Inl r)
  note r = main_run_not_rewritten [OF Inl]
  from main_rewritten_Inl [OF Inl] show ?thesis
  proof
    assume "\<exists>msg. trace r = [Call_MkdirAll (filepath_Join [fileDir, tmpDirName]), Stderr_json msg, Exit 1]"
    then obtain msg where
      "trace (main_run w i fileDir) =
         [Call_MkdirAll (filepath_Join [fileDir, tmpDirName])] @ [Stderr_json msg, Exit 1]"
      by (auto simp: r)
    then show ?thesis by (intro disjI1 exI conjI) auto
  next
    assume "\<exists>msg. mainTempl w i = Templ_parse_error msg
              \<and> trace r = [Call_MkdirAll (filepath_Join [fileDir, tmpDirName]), Panic msg]"
    then show ?thesis by (simp add: r)
  qed
next
  case (Inr fs)
  let ?tmpDir = "filepath_Join [fileDir, tmpDirName]"
  let ?tmpMain = "filepath_Join [?tmpDir, ''main.go'']"
  show ?thesis
  proof (cases "cmd_Run (go_run w fs ?tmpDir ?tmpMain)")
    case None
    show ?thesis
    proof (cases "fst (os_RemoveAll (remove_refused w) fs ?tmpDir)")
      case n: None
      with assms None show ?thesis
        by (simp add: main_run_rewritten [OF Inr] main_execute_removed exit_status_def)
    next
      case (Some msg)
      have "trace (main_run w i fileDir) =
          [Call_MkdirAll ?tmpDir, Call_Run ?tmpDir ?tmpMain, Call_RemoveAll ?tmpDir] @
          [Stderr_json msg, Exit 1]"
        by (simp add: main_run_rewritten [OF Inr] main_execute_not_removed [OF None Some] fail_def)
      then show ?thesis by (intro disjI1 exI conjI) auto
    qed
  next
    case (Some msg)
    have "trace (main_run w i fileDir) =
        [Call_MkdirAll ?tmpDir, Call_Run ?tmpDir ?tmpMain] @
        [Stderr_json (if stdErr (go_run w fs ?tmpDir ?tmpMain) \<noteq> []
                 then msg @ [CHR 0x0A] @ stdErr (go_run w fs ?tmpDir ?tmpMain) else msg), Exit 1]"
      by (simp add: main_run_rewritten [OF Inr] main_execute_failed [OF Some] fail_def)
    then show ?thesis by (intro disjI1 exI conjI) auto
  qed
qed

lemma example_main_rewritten:
  "\<exists>fs. main_rewritten (example_world (example_gomod ''1.20'') child)
          \<lparr>ModuleName = ''example.com/app'', PackageName = ''models'',
            ImportName = ''example.com/app/pkg'', FileName = ''models.go'',
            RelativePath = ''pkg'', FilePath = ''/m/pkg/models.go'',
            TypeName = ''User''\<rparr> ''/m/pkg'' = Inr fs"
proof -
  have "case main_rewritten (example_world (example_gomod ''1.20'') child)
          \<lparr>ModuleName = ''example.com/app'', PackageName = ''models'',
            ImportName = ''example.com/app/pkg'', FileName = ''models.go'',
            RelativePath = ''pkg'', FilePath = ''/m/pkg/models.go'',
            TypeName = ''User''\<rparr> ''/m/pkg'' of Inr fs \<Rightarrow> True | Inl r \<Rightarrow> False"
    by code_simp
  then show ?thesis by (simp split: sum.splits)
qed

lemma example_flags:
  "flags (example_world gomod child) = Flag_values ''pkg/models.go'' ''User''"
  by (simp add: example_world_def)

lemma example_go_run: "go_run (example_world gomod child) fs dir prog = child"
  by (simp add: example_world_def)

lemma example_remove_refused: "remove_refused (example_world gomod child) name = None"
  by (simp add: example_world_def)

subsection \<open>The result of the child process\<close>

text \<open>
  Claim C1, as amended. A run that reaches the child process takes the child
  for a success, and goes on to remove the workspace, exactly when \<^verbatim>\<open>cmd.Run\<close>
  returns no error, that is when the child exits with status 0, whatever it
  wrote to standard error. The run then exits with status 0 and the standard
  output of the child as its payload, unless the removal fails, which is
  reported as a failure of its own. For a child that fails the payload is the
  error message of the process, followed by a newline and the captured
  standard error when that is not empty.
\<close>

theorem child_result_decides:
  assumes "flags w = Flag_values filePath symbolName"
    and "filePath \<noteq> []" and "symbolName \<noteq> []"
    and "main_importInfo w filePath symbolName = Inr (i, fileDir)"
    and "main_rewritten w i fileDir = Inr fs"
    and "tmpDir = filepath_Join [fileDir, tmpDirName]"
    and "child = go_run w fs tmpDir (filepath_Join [tmpDir, ''main.go''])"
  shows "(Call_RemoveAll tmpDir \<in> set (trace (main w)) \<longleftrightarrow> (\<exists>out err. child = Exited 0 out err))
       \<and> (exit_status (main w) = 0 \<longleftrightarrow>
            (\<exists>out err. child = Exited 0 out err)
            \<and> fst (os_RemoveAll (remove_refused w) fs tmpDir) = None)
       \<and> (exit_status (main w) = 0 \<longrightarrow>
            stdout_of (main w) = stdOut child \<and> stderr_of (main w) = [])
       \<and> (\<forall>msg. cmd_Run child = Some msg \<longrightarrow>
            stderr_of (main w) =
              [Stderr_json (if stdErr child \<noteq> [] then msg @ [CHR 0x0A] @ stdErr child else msg)]
            \<and> stdout_of (main w) = []
            \<and> exit_status (main w) = 1)
       \<and> (\<forall>msg. cmd_Run child = None
              \<and> fst (os_RemoveAll (remove_refused w) fs tmpDir) = Some msg \<longrightarrow>
            stderr_of (main w) = [Stderr_json msg]
            \<and> stdout_of (main w) = []
            \<and> exit_status (main w) = 1)"
proof -
  let ?tmpMain = "filepath_Join [tmpDir, ''main.go'']"
  have m: "main w = main_execute w tmpDir ?tmpMain fs"
    using main_ready [OF assms(1-4)] main_run_rewritten [OF assms(5)] by (simp add: assms(6))
  note c = assms(7) [symmetric]
  note o = fail_def exit_status_def stdout_of_def stderr_of_def is_stderr_def
  show ?thesis
  proof (cases "cmd_Run child")
    case (Some msg)
    then have "main w =
           fail (if stdErr child \<noteq> [] then msg @ [CHR 0x0A] @ stdErr child else msg)
             fs [Call_MkdirAll tmpDir, Call_Run tmpDir ?tmpMain]"
      using main_execute_failed [of w fs tmpDir ?tmpMain msg] by (simp add: m c)
    then have "exit_status (main w) = 1" "stdout_of (main w) = []"
      "stderr_of (main w) =
         [Stderr_json (if stdErr child \<noteq> [] then msg @ [CHR 0x0A] @ stdErr child else msg)]"
      "Call_RemoveAll tmpDir \<notin> set (trace (main w))"
      by (simp_all add: o)
    with Some show ?thesis by (simp add: cmd_Run_None [symmetric])
  next
    case None
    show ?thesis
    proof (cases "fst (os_RemoveAll (remove_refused w) fs tmpDir)")
      case n: None
      have "main w =
           \<lparr>final = filter (\<lambda>(name, n). \<not> path_under tmpDir name) fs,
            trace = [Call_MkdirAll tmpDir, Call_Run tmpDir ?tmpMain, Call_RemoveAll tmpDir,
                     Stdout (stdOut child), Exit 0]\<rparr>"
        using main_execute_removed [of w fs tmpDir ?tmpMain] None n by (simp add: m c)
      then have "exit_status (main w) = 0" "stdout_of (main w) = stdOut child"
        "stderr_of (main w) = []" "Call_RemoveAll tmpDir \<in> set (trace (main w))"
        by (simp_all add: o)
      with None n show ?thesis by (simp add: cmd_Run_None [symmetric])
    next
      case (Some msg)
      have "main w = fail msg (snd (os_RemoveAll (remove_refused w) fs tmpDir))
             [Call_MkdirAll tmpDir, Call_Run tmpDir ?tmpMain, Call_RemoveAll tmpDir]"
        using main_execute_not_removed [of w fs tmpDir ?tmpMain msg] None Some by (simp add: m c)
      then have "exit_status (main w) = 1" "stdout_of (main w) = []"
        "stderr_of (main w) = [Stderr_json msg]" "Call_RemoveAll tmpDir \<in> set (trace (main w))"
        by (simp_all add: o)
      with None Some show ?thesis by (simp add: cmd_Run_None [symmetric])
    qed
  qed
qed

text \<open>
  Two runs of the example: a child that exits with status 3 after writing
  \<^verbatim>\<open>boom\<close> to standard error, and a child that exits with status 0.
\<close>

theorem child_result_decides_witness:
  "exit_status (main (example_world (example_gomod ''1.20'') (Exited 3 [] ''boom''))) = 1
   \<and> stderr_of (main (example_world (example_gomod ''1.20'') (Exited 3 [] ''boom''))) =
       [Stderr_json (''exit status 3'' @ [CHR 0x0A] @ ''boom'')]
   \<and> exit_status (main (example_world (example_gomod ''1.20'') (Exited 0 ''{}'' []))) = 0
   \<and> stdout_of (main (example_world (example_gomod ''1.20'') (Exited 0 ''{}'' []))) = ''{}''
   \<and> Call_RemoveAll (filepath_Join [''/m/pkg'', tmpDirName])
        \<in> set (trace (main (example_world (example_gomod ''1.20'') (Exited 0 ''{}'' []))))"
proof -
  have c: "cmd_Run (Exited 3 [] ''boom'') = Some ''exit status 3''"
    by code_simp
  have 1: "exit_status (main (example_world (example_gomod ''1.20'') (Exited 3 [] ''boom''))) = 1
   \<and> stderr_of (main (example_world (example_gomod ''1.20'') (Exited 3 [] ''boom''))) =
       [Stderr_json (''exit status 3'' @ [CHR 0x0A] @ ''boom'')]"
  proof -
    obtain fs where r: "main_rewritten (example_world (example_gomod ''1.20'') (Exited 3 [] ''boom''))
          \<lparr>ModuleName = ''example.com/app'', PackageName = ''models'',
            ImportName = ''example.com/app/pkg'', FileName = ''models.go'',
            RelativePath = ''pkg'', FilePath = ''/m/pkg/models.go'',
            TypeName = ''User''\<rparr> ''/m/pkg'' = Inr fs"
      using example_main_rewritten by blast
    from child_result_decides [OF example_flags _ _ example_main_importInfo r refl refl]
    show ?thesis by (simp add: example_go_run c stdErr_def)
  qed
  have 2: "exit_status (main (example_world (example_gomod ''1.20'') (Exited 0 ''{}'' []))) = 0
   \<and> stdout_of (main (example_world (example_gomod ''1.20'') (Exited 0 ''{}'' []))) = ''{}''
   \<and> Call_RemoveAll (filepath_Join [''/m/pkg'', tmpDirName])
        \<in> set (trace (main (example_world (example_gomod ''1.20'') (Exited 0 ''{}'' []))))"
  proof -
    obtain fs where r: "main_rewritten (example_world (example_gomod ''1.20'') (Exited 0 ''{}'' []))
          \<lparr>ModuleName = ''example.com/app'', PackageName = ''models'',
            ImportName = ''example.com/app/pkg'', FileName = ''models.go'',
            RelativePath = ''pkg'', FilePath = ''/m/pkg/models.go'',
            TypeName = ''User''\<rparr> ''/m/pkg'' = Inr fs"
      using example_main_rewritten by blast
    from child_result_decides [OF example_flags _ _ example_main_importInfo r refl refl]
    show ?thesis
      by (simp add: example_go_run stdOut_def os_RemoveAll_allowed example_remove_refused)
  qed
  from 1 2 show ?thesis by simp
qed

text \<open>
  The claim as it is written fails for a child that exits with status 0 and
  has written to standard error: the run succeeds, and what the child wrote to
  standard error is dropped.
\<close>

theorem stderr_output_is_not_a_failure:
  "stdErr (Exited 0 ''{}'' ''warning'') \<noteq> []
   \<and> exit_status (main (example_world (example_gomod ''1.20'') (Exited 0 ''{}'' ''warning''))) = 0
   \<and> stdout_of (main (example_world (example_gomod ''1.20'') (Exited 0 ''{}'' ''warning''))) = ''{}''
   \<and> stderr_of (main (example_world (example_gomod ''1.20'') (Exited 0 ''{}'' ''warning''))) = []"
  by code_simp

subsection \<open>The report of a failure\<close>

text \<open>
  Claim C6, as amended. A run that lacks one of its two parameters writes the
  usage text and exits with status 1. Every other run that does not exit with
  status 0 has written one JSON object with the field \<^verbatim>\<open>error\<close> to standard
  error, nothing to standard output, and exits with status 1; the one
  exception is the panic of \<^verbatim>\<open>template.Must\<close> for an embedded template that
  does not parse.
\<close>

theorem failures_are_reported:
  assumes "flags w = Flag_values filePath symbolName"
  shows "(filePath = [] \<or> symbolName = [] \<longrightarrow> trace (main w) = [Stderr_usage, Exit 1])
       \<and> (filePath \<noteq> [] \<and> symbolName \<noteq> [] \<and> exit_status (main w) \<noteq> 0 \<longrightarrow>
            (\<exists>msg. stderr_of (main w) = [Stderr_json msg] \<and> stdout_of (main w) = []
                 \<and> exit_status (main w) = 1)
          \<or> (\<exists>msg i. mainTempl w i = Templ_parse_error msg \<and> last (trace (main w)) = Panic msg))"
proof (intro conjI impI)
  assume "filePath = [] \<or> symbolName = []"
  with assms show "trace (main w) = [Stderr_usage, Exit 1]"
    by (auto simp: main_def)
next
  assume a: "filePath \<noteq> [] \<and> symbolName \<noteq> [] \<and> exit_status (main w) \<noteq> 0"
  show "(\<exists>msg. stderr_of (main w) = [Stderr_json msg] \<and> stdout_of (main w) = []
                 \<and> exit_status (main w) = 1)
          \<or> (\<exists>msg i. mainTempl w i = Templ_parse_error msg \<and> last (trace (main w)) = Panic msg)"
  proof (cases "main_importInfo w filePath symbolName")
    case (Inl err)
    with assms a have "main w = fail err (disk w) []" by (simp add: main_def)
    then show ?thesis
      by (simp add: fail_def exit_status_def stdout_of_def stderr_of_def is_stderr_def)
  next
    case (Inr p)
    obtain i fileDir where p: "p = (i, fileDir)" by (cases p)
    from assms a Inr p have m: "main w = main_run w i fileDir" by (simp add: main_ready)
    with a have "exit_status (main_run w i fileDir) \<noteq> 0" by simp
    from main_run_failure_shape [OF this] show ?thesis
    proof
      assume "\<exists>msg tr. trace (main_run w i fileDir) = tr @ [Stderr_json msg, Exit 1]
            \<and> set tr \<subseteq> {Call_MkdirAll (filepath_Join [fileDir, tmpDirName]),
                 Call_Run (filepath_Join [fileDir, tmpDirName])
                   (filepath_Join [filepath_Join [fileDir, tmpDirName], ''main.go'']),
                 Call_RemoveAll (filepath_Join [fileDir, tmpDirName])}"
      then obtain msg tr where t: "trace (main w) = tr @ [Stderr_json msg, Exit 1]"
        and s: "set tr \<subseteq> {Call_MkdirAll (filepath_Join [fileDir, tmpDirName]),
                 Call_Run (filepath_Join [fileDir, tmpDirName])
                   (filepath_Join [filepath_Join [fileDir, tmpDirName], ''main.go'']),
                 Call_RemoveAll (filepath_Join [fileDir, tmpDirName])}"
        by (auto simp: m)
      from s have q: "filter is_stderr tr = []"
        "concat (map (\<lambda>e. case e of Stdout out \<Rightarrow> out | _ \<Rightarrow> []) tr) = []"
        by (auto simp: filter_empty_conv is_stderr_def)
      from t q have "stderr_of (main w) = [Stderr_json msg]" "stdout_of (main w) = []"
        "exit_status (main w) = 1"
        by (simp_all add: stderr_of_def stdout_of_def exit_status_def is_stderr_def)
      then show ?thesis by blast
    next
      assume "\<exists>msg. mainTempl w i = Templ_parse_error msg
              \<and> trace (main_run w i fileDir) =
                  [Call_MkdirAll (filepath_Join [fileDir, tmpDirName]), Panic msg]"
      then show ?thesis by (auto simp: m)
    qed
  qed
qed

theorem failures_are_reported_witness:
  "stderr_of (main (example_world (example_gomod ''1.20'') (Exited 3 [] ''boom''))) =
       [Stderr_json (''exit status 3'' @ [CHR 0x0A] @ ''boom'')]
   \<and> exit_status (main (example_world (example_gomod ''1.20'') (Exited 3 [] ''boom''))) = 1"
proof -
  let ?w = "example_world (example_gomod ''1.20'') (Exited 3 [] ''boom'')"
  have e: "trace (main ?w) =
      [Call_MkdirAll ''/m/pkg/jsonschema-gen'',
       Call_Run ''/m/pkg/jsonschema-gen'' ''/m/pkg/jsonschema-gen/main.go'',
       Stderr_json (''exit status 3'' @ [CHR 0x0A] @ ''boom''), Exit 1]"
    by code_simp
  then have x: "exit_status (main ?w) \<noteq> 0" "\<And>msg. last (trace (main ?w)) \<noteq> Panic msg"
    by (simp_all add: exit_status_def)
  from failures_are_reported [OF example_flags, of "example_gomod ''1.20''" "Exited 3 [] ''boom''"] x
  have "\<exists>msg. stderr_of (main ?w) = [Stderr_json msg] \<and> stdout_of (main ?w) = []
                 \<and> exit_status (main ?w) = 1"
    by auto
  with e show ?thesis by (auto simp: stderr_of_def is_stderr_def)
qed

text \<open>
  The claim as it is written fails for a run without its \<^verbatim>\<open>-type\<close> parameter: it
  fails with status 1, and standard error holds the usage text, not a JSON
  object.
\<close>

theorem missing_parameter_prints_usage:
  "exit_status (main ((example_world (example_gomod ''1.20'') (Exited 0 [] []))
                        \<lparr>flags := Flag_values ''pkg/models.go'' []\<rparr>)) = 1
   \<and> stderr_of (main ((example_world (example_gomod ''1.20'') (Exited 0 [] []))
                        \<lparr>flags := Flag_values ''pkg/models.go'' []\<rparr>)) = [Stderr_usage]"
  by (simp add: main_def example_world_def exit_status_def stderr_of_def is_stderr_def)

subsection \<open>What the file operations keep\<close>

text \<open>
  No operation but \<^verbatim>\<open>os.RemoveAll\<close> removes a path or replaces a directory:
  \<^verbatim>\<open>fs_keeps fs fs'\<close> says that every path of \<^verbatim>\<open>fs\<close> is a path of \<^verbatim>\<open>fs'\<close>, and
  every directory a directory.
\<close>

definition fs_keeps :: "filesystem \<Rightarrow> filesystem \<Rightarrow> bool" where
  "fs_keeps fs fs' =
     (\<forall>name. (os_Stat fs name \<longrightarrow> os_Stat fs' name)
          \<and> (fs_lookup fs name = Some Directory \<longrightarrow> fs_lookup fs' name = Some Directory))"

lemma fs_keeps_refl: "fs_keeps fs fs"
  by (simp add: fs_keeps_def)

lemma fs_keeps_trans: "fs_keeps fs fs' \<Longrightarrow> fs_keeps fs' fs'' \<Longrightarrow> fs_keeps fs fs''"
  by (simp add: fs_keeps_def)

lemma fs_lookup_store:
  "fs_lookup (fs_store fs name n) name' = (if name' = name then Some n else fs_lookup fs name')"
  by (simp add: fs_lookup_def fs_store_def update_conv')

lemma fs_keeps_store:
  "fs_lookup fs name \<noteq> Some Directory \<or> n = Directory \<Longrightarrow> fs_keeps fs (fs_store fs name n)"
  by (auto simp: fs_keeps_def os_Stat_def fs_lookup_store)

lemma os_WriteFile_keeps:
  assumes "os_WriteFile fs name data = Inr fs'"
  shows "fs_keeps fs fs'"
  using assms fs_keeps_store [of fs name "File data"]
  by (auto simp: os_WriteFile_def split: option.splits node.splits)

lemma os_WriteFile_lookup:
  assumes "os_WriteFile fs name data = Inr fs'"
  shows "fs_lookup fs' name' = (if name' = name then Some (File data) else fs_lookup fs name')"
  using assms
  by (auto simp: os_WriteFile_def fs_lookup_store split: option.splits node.splits)

lemma os_WriteFile_not_Directory:
  assumes "os_WriteFile fs name data = Inr fs'"
  shows "fs_lookup fs name \<noteq> Some Directory"
  using assms by (auto simp: os_WriteFile_def split: option.splits node.splits)

lemma os_Mkdir_keeps:
  assumes "os_Mkdir fs name = Inr fs'"
  shows "fs_keeps fs fs' \<and> fs_lookup fs' name = Some Directory"
  using assms fs_keeps_store [of fs name Directory]
  by (auto simp: os_Mkdir_def fs_lookup_store split: option.splits node.splits)

lemma os_MkdirAll_keeps:
  "os_MkdirAll fs path = Inr fs' \<Longrightarrow> fs_keeps fs fs' \<and> fs_lookup fs' path = Some Directory"
proof (induction fs path arbitrary: fs' rule: os_MkdirAll.induct)
  case (1 fs path)
  show ?case
  proof (cases "fs_lookup fs path")
    case None
    show ?thesis
    proof (cases "filepath_Dir path = path")
      case True
      with None "1.prems" have "os_Mkdir fs path = Inr fs'"
        by (simp add: os_MkdirAll.simps [of fs path])
      then show ?thesis by (rule os_Mkdir_keeps)
    next
      case False
      with None "1.prems" obtain fs1 where
        p: "os_MkdirAll fs (filepath_Dir path) = Inr fs1" and m: "os_Mkdir fs1 path = Inr fs'"
        by (auto simp: os_MkdirAll.simps [of fs path] split: sum.splits)
      from "1.IH" [OF None False p] have "fs_keeps fs fs1" by simp
      with os_Mkdir_keeps [OF m] show ?thesis by (auto intro: fs_keeps_trans)
    qed
  next
    case (Some n)
    with "1.prems" show ?thesis
      by (cases n) (auto simp: os_MkdirAll.simps [of fs path] fs_keeps_refl)
  qed
qed

lemma os_MkdirAll_existing:
  "fs_lookup fs path = Some Directory \<Longrightarrow> os_MkdirAll fs path = Inr fs"
  by (simp add: os_MkdirAll.simps [of fs path])

lemma walk_files_keeps:
  assumes "\<And>name fs1 fs2. fn name fs1 = Inr fs2 \<Longrightarrow> fs_keeps fs1 fs2"
  shows "fs_keeps fs (snd (walk_files fn names fs))"
proof (induction names arbitrary: fs)
  case Nil
  show ?case by (simp add: fs_keeps_refl)
next
  case (Cons name names)
  show ?case
  proof (cases "fn name fs")
    case (Inl err)
    then show ?thesis by (simp add: fs_keeps_refl)
  next
    case (Inr fs2)
    with assms have "fs_keeps fs fs2" by simp
    with Cons.IH [of fs2] Inr show ?thesis by (auto intro: fs_keeps_trans)
  qed
qed

lemma copyDeps_keeps: "fs_keeps fs (snd (copyDeps embedded dst fs))"
  unfolding copyDeps_def
proof (rule walk_files_keeps)
  fix name fs1 fs2
  assume "copyDeps_entry embedded dst name fs1 = Inr fs2"
  then show "fs_keeps fs1 fs2"
    by (auto simp: copyDeps_entry_def Let_def split: if_splits sum.splits
        dest: os_MkdirAll_keeps os_WriteFile_keeps)
qed



lemma main_materialize_keeps:
  assumes "os_MkdirAll (disk w) (filepath_Join [fileDir, tmpDirName]) = Inr fs1"
  shows "case main_materialize w i fileDir of
           Inl r \<Rightarrow> fs_keeps fs1 (final r) | Inr fs4 \<Rightarrow> fs_keeps fs1 fs4"
proof -
  let ?tmpDir = "filepath_Join [fileDir, tmpDirName]"
  let ?tmpMain = "filepath_Join [?tmpDir, ''main.go'']"
  note d = main_materialize_def Let_def fail_def must_def
  show ?thesis
  proof (cases "os_Create fs1 ?tmpMain")
    case Inl
    with assms show ?thesis by (simp add: d fs_keeps_refl)
  next
    case (Inr fs2)
    then have k2: "fs_keeps fs1 fs2" and f2: "fs_lookup fs2 ?tmpMain \<noteq> Some Directory"
      using os_WriteFile_keeps [of fs1 ?tmpMain "[]" fs2]
        os_WriteFile_lookup [of fs1 ?tmpMain "[]" fs2 ?tmpMain]
      by (simp_all add: os_Create_def)
    have k3: "fs_keeps fs1 (fs_store fs2 ?tmpMain (File data))" for data
      using k2 fs_keeps_store [of fs2 ?tmpMain "File data"] f2 by (auto intro: fs_keeps_trans)
    show ?thesis
    proof (cases "mainTempl w i")
      case Templ_parse_error
      with assms Inr k2 show ?thesis by (simp add: d)
    next
      case Templ_exec_error
      with assms Inr k3 show ?thesis by (simp add: d)
    next
      case (Templ_ok rendered)
      obtain err fs4 where c: "copyDeps (embedFS w) ?tmpDir (fs_store fs2 ?tmpMain (File rendered)) = (err, fs4)"
        by (cases "copyDeps (embedFS w) ?tmpDir (fs_store fs2 ?tmpMain (File rendered))")
      from copyDeps_keeps [of "fs_store fs2 ?tmpMain (File rendered)" "embedFS w" ?tmpDir] c
      have "fs_keeps (fs_store fs2 ?tmpMain (File rendered)) fs4" by simp
      with k3 have "fs_keeps fs1 fs4" by (auto intro: fs_keeps_trans)
      with assms Inr Templ_ok c show ?thesis by (cases err) (simp_all add: d)
    qed
  qed
qed

lemma main_materialize_made:
  assumes "main_materialize w i fileDir = Inr fs4"
  shows "\<exists>fs1. os_MkdirAll (disk w) (filepath_Join [fileDir, tmpDirName]) = Inr fs1"
  using assms
  by (cases "os_MkdirAll (disk w) (filepath_Join [fileDir, tmpDirName])")
     (simp_all add: main_materialize_def)

lemma main_materialize_workspace:
  assumes "main_materialize w i fileDir = Inr fs4"
  shows "fs_lookup fs4 (filepath_Join [fileDir, tmpDirName]) = Some Directory"
proof -
  from main_materialize_made [OF assms] obtain fs1
    where m: "os_MkdirAll (disk w) (filepath_Join [fileDir, tmpDirName]) = Inr fs1" ..
  from main_materialize_keeps [OF m, of i] assms have "fs_keeps fs1 fs4" by simp
  with os_MkdirAll_keeps [OF m] show ?thesis by (simp add: fs_keeps_def)
qed





subsection \<open>The life of the workspace\<close>






text \<open>
  Claim C8, as amended. The workspace of a run is the directory
  \<^verbatim>\<open>jsonschema-gen\<close> in the directory of the target file: its path depends on
  nothing else, so two runs for files of one directory work on the same path;
  and a workspace that is already there is taken as it is.
\<close>

theorem workspace_path_is_fixed:
  assumes "flags w = Flag_values filePath symbolName"
    and "filePath \<noteq> []" and "symbolName \<noteq> []"
    and "main_importInfo w filePath symbolName = Inr (i, fileDir)"
  shows "hd (trace (main w)) = Call_MkdirAll (filepath_Join [fileDir, tmpDirName])
       \<and> (\<exists>absPath. filepath_Abs (os_Getwd w) filePath = Inr absPath
             \<and> fileDir = filepath_Dir absPath)
       \<and> (fs_lookup (disk w) (filepath_Join [fileDir, tmpDirName]) = Some Directory \<longrightarrow>
            os_MkdirAll (disk w) (filepath_Join [fileDir, tmpDirName]) = Inr (disk w))"
proof -
  from main_importInfo_cases [OF assms(4)] obtain absPath where
    "filepath_Abs (os_Getwd w) filePath = Inr absPath" "fileDir = filepath_Dir absPath"
    by metis
  then show ?thesis
    by (auto simp: main_ready [OF assms] main_run_trace_hd os_MkdirAll_existing)
qed

theorem workspace_path_is_fixed_witness:
  "hd (trace (main (example_world (example_gomod ''1.20'') (Exited 0 [] [])))) =
     Call_MkdirAll (filepath_Join [''/m/pkg'', tmpDirName])"
  using workspace_path_is_fixed [OF example_flags _ _ example_main_importInfo,
      of "Exited 0 [] []"]
  by simp

text \<open>
  The claim as it is written fails for two runs on one file, for two of its
  types: both work in \<^verbatim>\<open>/m/pkg/jsonschema-gen\<close>. And the second of two runs in a
  row, the first of which has failed, finds the workspace of the first and
  keeps it: \<^verbatim>\<open>os.MkdirAll\<close> changes nothing.
\<close>

theorem two_runs_share_the_workspace:
  "flags (example_world (example_gomod ''1.20'') (Exited 3 [] ''boom''))
     \<noteq> flags ((example_world (example_gomod ''1.20'') (Exited 3 [] ''boom''))
                \<lparr>flags := Flag_values ''pkg/models.go'' ''Account''\<rparr>)
   \<and> hd (trace (main (example_world (example_gomod ''1.20'') (Exited 3 [] ''boom'')))) =
       Call_MkdirAll ''/m/pkg/jsonschema-gen''
   \<and> hd (trace (main ((example_world (example_gomod ''1.20'') (Exited 3 [] ''boom''))
                \<lparr>flags := Flag_values ''pkg/models.go'' ''Account''\<rparr>))) =
       Call_MkdirAll ''/m/pkg/jsonschema-gen''
   \<and> os_MkdirAll (final (main (example_world (example_gomod ''1.20'') (Exited 3 [] ''boom''))))
        ''/m/pkg/jsonschema-gen'' =
       Inr (final (main (example_world (example_gomod ''1.20'') (Exited 3 [] ''boom''))))"
  by code_simp

subsection \<open>The search for the module root\<close>

text \<open>
  The loop of \<^verbatim>\<open>findGoMod\<close> with a bound on its iterations: no result when the
  bound is reached.
\<close>

fun findGoMod_steps :: "nat \<Rightarrow> filesystem \<Rightarrow> string \<Rightarrow> string option" where
  "findGoMod_steps 0 fs dir = None"
| "findGoMod_steps (Suc n) fs dir =
     (if os_Stat fs (filepath_Join [dir, ''go.mod'']) then Some dir
      else
        let parent = filepath_Dir dir
        in if parent = dir then Some [] else findGoMod_steps n fs parent)"

lemma findGoMod_steps_enough:
  "walk_measure dir < n \<Longrightarrow> findGoMod_steps n fs dir = Some (findGoMod fs dir)"
proof (induction n arbitrary: dir)
  case 0
  then show ?case by simp
next
  case (Suc n)
  show ?case
  proof (cases "os_Stat fs (filepath_Join [dir, ''go.mod'']) \<or> filepath_Dir dir = dir")
    case True
    then show ?thesis by (auto simp: findGoMod.simps [of fs dir] Let_def)
  next
    case False
    then have "walk_measure (filepath_Dir dir) < walk_measure dir"
      by (simp add: filepath_Dir_measure)
    with Suc.prems have "walk_measure (filepath_Dir dir) < n" by simp
    from Suc.IH [OF this] False show ?thesis
      by (simp add: findGoMod.simps [of fs dir] Let_def)
  qed
qed

lemma findGoMod_found:
  "findGoMod fs dir = [] \<or> os_Stat fs (filepath_Join [findGoMod fs dir, ''go.mod''])"
proof (induction fs dir rule: findGoMod.induct)
  case (1 fs dir)
  show ?case
  proof (cases "os_Stat fs (filepath_Join [dir, ''go.mod''])")
    case True
    then show ?thesis by (simp add: findGoMod.simps [of fs dir])
  next
    case False
    show ?thesis
    proof (cases "filepath_Dir dir = dir")
      case True
      with False show ?thesis by (simp add: findGoMod.simps [of fs dir])
    next
      case d: False
      from "1.IH" [OF False refl d] False d show ?thesis
        by (simp add: findGoMod.simps [of fs dir])
    qed
  qed
qed

lemma filepath_Clean_rooted:
  "path \<noteq> [] \<Longrightarrow> hd path = CHR ''/'' \<Longrightarrow> \<exists>body. filepath_Clean path = CHR ''/'' # body"
  by (simp add: filepath_Clean_def Let_def)

lemma filepath_Dir_abs:
  assumes "filepath_IsAbs dir"
  shows "filepath_IsAbs (filepath_Dir dir)"
proof -
  from assms obtain cs where d: "dir = CHR ''/'' # cs"
    by (cases dir) (auto simp: filepath_IsAbs_def strings_HasPrefix_def)
  then have "CHR ''/'' \<in> set dir" by simp
  from last_sep_prefix_some [OF this] d
  have "last_sep_prefix dir \<noteq> []" "hd (last_sep_prefix dir) = CHR ''/''"
    by (cases "last_sep_prefix dir"; auto simp: prefix_def)+
  from filepath_Clean_rooted [OF this]
  show ?thesis
    by (auto simp: filepath_Dir_def filepath_IsAbs_def strings_HasPrefix_def)
qed

lemma filepath_Dir_root: "filepath_Dir ''/'' = ''/''"
  by (simp add: filepath_Dir_def last_sep_prefix_def filepath_Clean_def clean_elem_def)

text \<open>
  Claim C10. \<^verbatim>\<open>findGoMod\<close> returns for every directory, within a number of
  iterations that its length bounds, and what it returns is the empty string
  or a directory that holds a \<^verbatim>\<open>go.mod\<close>. Every step to the parent shortens a
  path that has a separator and is not the root, so every absolute path, as
  the paths of \<^verbatim>\<open>main\<close> are; the parent of an absolute path is absolute, and it
  is the path itself for the root only.
\<close>

theorem findGoMod_terminates:
  "findGoMod_steps (length dir + 2) fs dir = Some (findGoMod fs dir)
   \<and> (findGoMod fs dir = [] \<or> os_Stat fs (filepath_Join [findGoMod fs dir, ''go.mod'']))
   \<and> (CHR ''/'' \<in> set dir \<and> dir \<noteq> ''/'' \<longrightarrow> length (filepath_Dir dir) < length dir)
   \<and> (filepath_IsAbs dir \<longrightarrow>
        filepath_IsAbs (filepath_Dir dir) \<and> (filepath_Dir dir = dir \<longleftrightarrow> dir = ''/''))"
proof (intro conjI impI)
  have "walk_measure dir < length dir + 2" by (simp add: walk_measure_def)
  then show "findGoMod_steps (length dir + 2) fs dir = Some (findGoMod fs dir)"
    by (rule findGoMod_steps_enough)
  show "findGoMod fs dir = [] \<or> os_Stat fs (filepath_Join [findGoMod fs dir, ''go.mod''])"
    by (rule findGoMod_found)
  show "length (filepath_Dir dir) < length dir" if "CHR ''/'' \<in> set dir \<and> dir \<noteq> ''/''"
    using that by (simp add: filepath_Dir_shorter)
  show "filepath_IsAbs (filepath_Dir dir)" if "filepath_IsAbs dir"
    using that by (rule filepath_Dir_abs)
  show "filepath_Dir dir = dir \<longleftrightarrow> dir = ''/''" if "filepath_IsAbs dir"
  proof
    assume e: "filepath_Dir dir = dir"
    from that have "CHR ''/'' \<in> set dir"
      by (cases dir) (auto simp: filepath_IsAbs_def strings_HasPrefix_def)
    with filepath_Dir_shorter [of dir] e show "dir = ''/''" by auto
  next
    assume "dir = ''/''"
    then show "filepath_Dir dir = dir" by (simp add: filepath_Dir_root)
  qed
qed

theorem findGoMod_terminates_witness:
  "length (filepath_Dir ''/m/pkg'') < length ''/m/pkg''
   \<and> filepath_IsAbs (filepath_Dir ''/m/pkg'')
   \<and> findGoMod_steps (length ''/m/pkg'' + 2) (example_disk (example_gomod ''1.20'')) ''/m/pkg''
        = Some (findGoMod (example_disk (example_gomod ''1.20'')) ''/m/pkg'')"
proof -
  have a: "filepath_IsAbs ''/m/pkg''" by code_simp
  have s: "CHR ''/'' \<in> set ''/m/pkg'' \<and> ''/m/pkg'' \<noteq> ''/''" by simp
  from findGoMod_terminates [of "''/m/pkg''" "example_disk (example_gomod ''1.20'')"] a s
  show ?thesis by blast
qed

subsection \<open>Replacing in a text\<close>

text \<open>
  What \<^verbatim>\<open>strings.ReplaceAll\<close> does for a non-empty \<^verbatim>\<open>old\<close>: nothing to a text
  without it, and otherwise it replaces the first occurrence and goes on behind it.
\<close>

lemma strings_ReplaceAll_absent:
  "old \<noteq> [] \<Longrightarrow> \<not> sublist old s \<Longrightarrow> strings_ReplaceAll s old new = s"
proof (induction s)
  case Nil
  show ?case by simp
next
  case (Cons c cs)
  from Cons.prems have "\<not> prefix old (c # cs)" "\<not> sublist old cs"
    by (auto simp: sublist_Cons_right)
  with Cons show ?case by simp
qed

lemma prefix_append_short:
  "prefix xs (ys @ zs) \<Longrightarrow> length xs \<le> length ys \<Longrightarrow> prefix xs ys"
  using prefix_length_prefix by fastforce

lemma strings_ReplaceAll_first:
  assumes "old \<noteq> []"
  shows "\<not> sublist old (a @ butlast old) \<Longrightarrow>
         strings_ReplaceAll (a @ old @ b) old new = a @ new @ strings_ReplaceAll b old new"
proof (induction a)
  case Nil
  from assms obtain c cs where "old = c # cs" by (cases old) auto
  then show ?case by simp
next
  case (Cons x a)
  have np: "\<not> prefix old (x # a @ old @ b)"
  proof
    assume p: "prefix old (x # a @ old @ b)"
    have "(x # a) @ old @ b = (x # a) @ (butlast old @ [last old]) @ b"
      using assms by simp
    also have "\<dots> = ((x # a) @ butlast old) @ (last old # b)" by simp
    finally have e: "(x # a) @ old @ b = ((x # a) @ butlast old) @ (last old # b)" .
    from p have "prefix old ((x # a) @ old @ b)" by simp
    then have "prefix old (((x # a) @ butlast old) @ (last old # b))"
      by (simp only: e)
    moreover have "length old \<le> length ((x # a) @ butlast old)" by simp
    ultimately have "prefix old ((x # a) @ butlast old)"
      by (rule prefix_append_short)
    with Cons.prems show False by auto
  qed
  from Cons.prems have "\<not> sublist old (a @ butlast old)"
    by (auto simp: sublist_Cons_right)
  with Cons.IH np show ?case by simp
qed

text \<open>A dependency name has no newline, so it is replaced line by line.\<close>

lemma strings_ReplaceAll_newline:
  "CHR 0x0A \<notin> set old \<Longrightarrow>
   strings_ReplaceAll (a @ CHR 0x0A # b) old new =
     strings_ReplaceAll a old new @ CHR 0x0A # strings_ReplaceAll b old new"
proof (induction a old new rule: strings_ReplaceAll.induct)
  case (1 old new)
  then have "\<not> (old \<noteq> [] \<and> prefix old (CHR 0x0A # b))"
    by (cases old) auto
  then show ?case by auto
next
  case (2 c cs old new)
  show ?case
  proof (cases "old \<noteq> [] \<and> prefix old (c # cs)")
    case True
    then have l: "length old \<le> length (c # cs)" by (auto dest: prefix_length_le)
    from True have p: "prefix old ((c # cs) @ CHR 0x0A # b)"
      using prefix_prefix [of old "c # cs" "CHR 0x0A # b"] by simp
    from l have "drop (length old) ((c # cs) @ CHR 0x0A # b) = drop (length old) (c # cs) @ CHR 0x0A # b"
      using drop_append [of "length old" "c # cs" "CHR 0x0A # b"] by simp
    with "2.IH"(1) [OF True "2.prems"] True p show ?thesis by simp
  next
    case False
    have "\<not> (old \<noteq> [] \<and> prefix old ((c # cs) @ CHR 0x0A # b))"
    proof
      assume a: "old \<noteq> [] \<and> prefix old ((c # cs) @ CHR 0x0A # b)"
      then have "prefix old (c # cs) \<or> (\<exists>us. old = (c # cs) @ us \<and> prefix us (CHR 0x0A # b))"
        unfolding prefix_append [of old "c # cs"] by simp
      with False a obtain us where u: "old = (c # cs) @ us" "prefix us (CHR 0x0A # b)"
        by auto
      with False a have "us \<noteq> []" by auto
      with u have "CHR 0x0A \<in> set old" by (cases us) auto
      with "2.prems" show False by simp
    qed
    with "2.IH"(2) [OF False "2.prems"] False show ?thesis by auto
  qed
qed

end
